theory Spec2Isabelle
  imports Main "HOL-Library.AList"
begin

section \<open>The host's data model\<close>

text \<open>
  The plugin of \<^verbatim>\<open>src/adt/mypy_plugin.py\<close> works on the syntax tree and the symbol
  tables of the type checker that loads it. This section gives the part of that object
  model which the plugin reads and writes: types, variables, arguments, function
  definitions, statements of a class body, symbol table nodes and the class's
  \<^verbatim>\<open>TypeInfo\<close>.
\<close>

datatype type_of_any = unannotated | implementation_artifact

datatype arg_kind = ARG_POS | ARG_NAMED

text \<open>
  \<^verbatim>\<open>mypy.types.Type\<close> with the subclasses the plugin builds or inspects. A callable type
  carries, in this order: argument types, argument kinds, argument names, return type,
  fallback, its type variables (\<^verbatim>\<open>variables\<close>) and the name given by \<^verbatim>\<open>with_name\<close>.
  A \<^verbatim>\<open>TypeVarDef\<close> carries name, fully qualified name, id, values and upper bound.
\<close>

datatype mtype =
    AnyType type_of_any
  | Instance string "mtype list"
  | TupleType "mtype list" mtype
  | TypeVarType tvar_def
  | CallableType (arg_types: "mtype list") (arg_kinds: "arg_kind list")
      (arg_names: "string option list") (ret_type: mtype) (fallback: mtype)
      (variables: "tvar_def list") (callable_name: "string option")
and tvar_def =
    TypeVarDef (tv_name: string) (tv_fullname: string) (tv_id: int)
      (tv_values: "mtype list") (tv_upper_bound: mtype)

datatype expression = NameExpr string | OtherExpr

record var =
  var_name :: string
  var_type :: "mtype option"

record argument =
  variable :: var
  type_annotation :: "mtype option"
  initializer :: "expression option"
  kind :: arg_kind

text \<open>
  A \<^verbatim>\<open>FuncDef\<close>. Nodes define no \<^verbatim>\<open>__eq__\<close>, so \<^verbatim>\<open>list.remove\<close> compares them by
  identity: \<open>fd_oid\<close> is the identity of the object. \<open>fd_info\<close> is the reference
  \<^verbatim>\<open>func.info\<close>, held as the qualified name of the \<^verbatim>\<open>TypeInfo\<close> it points to; the body
  is the constant \<^verbatim>\<open>Block([PassStmt()])\<close> and is not kept.
\<close>

record func_def =
  fd_oid :: nat
  fd_name :: string
  arguments :: "argument list"
  fd_info :: string
  is_class :: bool
  fd_type :: "mtype option"
  fd_fullname :: string
  fd_line :: int

record type_var_expr =
  tve_name :: string
  tve_fullname :: string
  tve_values :: "mtype list"
  tve_upper_bound :: mtype

datatype statement =
    AssignmentStmt "expression list"
  | FuncDefStmt func_def
  | PassStmt
  | OtherStmt

datatype symbol_node =
    VarNode var
  | FuncDefNode func_def
  | TypeVarExprNode type_var_expr
  | OtherNode

datatype symbol_kind = LDEF | GDEF | MDEF

record symbol_table_node =
  sym_kind :: symbol_kind
  node :: symbol_node
  plugin_generated :: bool

text \<open>
  A symbol table is a Python \<^verbatim>\<open>dict\<close>: an association list with distinct keys, in
  insertion order. \<^verbatim>\<open>d[k] = v\<close> is \<^const>\<open>AList.update\<close>, which overwrites in place or
  appends; \<^verbatim>\<open>k in d\<close> is \<open>map_of d k \<noteq> None\<close>.
\<close>

type_synonym symbol_table = "(string \<times> symbol_table_node) list"

text \<open>
  The \<^verbatim>\<open>TypeInfo\<close> of the class: \<open>mro_tail\<close> holds the symbol tables of the classes
  after the class itself in its method resolution order, \<open>type_vars\<close> the class's own
  type variables (\<^verbatim>\<open>defn.type_vars\<close>), \<open>tuple_type\<close> the items of its tuple type when
  it has one.
\<close>

record type_info =
  fullname :: string
  info_name :: string
  line :: int
  names :: symbol_table
  mro_tail :: "symbol_table list"
  type_vars :: "tvar_def list"
  tuple_type :: "mtype list option"

text \<open>
  A \<^verbatim>\<open>ClassDefContext\<close>: \<open>body\<close> is \<^verbatim>\<open>ctx.cls.defs.body\<close> (the same list as
  \<^verbatim>\<open>info.defn.defs.body\<close>), \<open>info\<close> is \<^verbatim>\<open>ctx.cls.info\<close>, and \<open>next_oid\<close> is the identity
  the next allocated \<^verbatim>\<open>FuncDef\<close> gets.
\<close>

record class_def_context =
  body :: "statement list"
  info :: type_info
  next_oid :: nat

datatype error =
    AssertionError string
  | ValueError
  | KeyError string
  | InvalidOperation

section \<open>Host functions the plugin calls\<close>

text \<open>\<^verbatim>\<open>api.named_type(qualified_name)\<close>: the instance type of a builtin class.\<close>

definition named_type :: "string \<Rightarrow> mtype" where
  "named_type qualified_name = Instance qualified_name []"

text \<open>
  \<^verbatim>\<open>mypy.typevars.fill_typevars\<close>: the class applied to its own type variables, or the
  class's tuple type with that instance as fallback.
\<close>

definition fill_typevars :: "type_info \<Rightarrow> mtype" where
  "fill_typevars typ =
     (let inst = Instance (fullname typ) (map TypeVarType (type_vars typ))
      in case tuple_type typ of
           None \<Rightarrow> inst
         | Some items \<Rightarrow> TupleType items inst)"

fun is_Instance :: "mtype \<Rightarrow> bool" where
  "is_Instance (Instance n ts) = True"
| "is_Instance t = False"

text \<open>
  \<^verbatim>\<open>mypy.semanal.set_callable_name\<close>, for a function definition whose \<^verbatim>\<open>info\<close> is set:
  the callable is named \<^verbatim>\<open>"<function> of <class>"\<close>.
\<close>

fun set_callable_name :: "mtype \<Rightarrow> string \<Rightarrow> type_info \<Rightarrow> mtype" where
  "set_callable_name (CallableType ts ks ns r fb vs nm) fname ti =
     CallableType ts ks ns r fb vs
       (Some (fname @ '' of '' @
          (if fullname ti = ''mypy_extensions._TypedDict'' then ''TypedDict''
           else info_name ti)))"
| "set_callable_name sig fname ti = sig"

text \<open>\<^verbatim>\<open>str(i)\<close> for a natural number: its decimal digits.\<close>

definition digit_char :: "nat \<Rightarrow> char" where
  "digit_char d = char_of (48 + d)"

fun str :: "nat \<Rightarrow> string" where
  "str n = (if n < 10 then [digit_char n] else str (n div 10) @ [digit_char (n mod 10)])"

declare str.simps [simp del]

text \<open>
  Modelled from the spec: the case tables of Unicode, which \<^verbatim>\<open>str.lower()\<close> reads for a
  character outside ASCII and which are no part of the repository. The spec calls the
  lower-casing of a name \<^emph>\<open>a deterministic, pure, total case-folding transform\<close>;
  \<open>unicode_lower\<close> is such a function, and nothing else is known of it.
\<close>

definition unicode_lower :: "string \<Rightarrow> string" where
  "unicode_lower = undefined"

text \<open>
  \<^verbatim>\<open>str.lower()\<close>. A name is a list of characters; a character below 128 is the ASCII
  character of that code. On a name of ASCII characters \<^verbatim>\<open>lower\<close> maps the letters
  \<^verbatim>\<open>A\<close> to \<^verbatim>\<open>Z\<close> to \<^verbatim>\<open>a\<close> to \<^verbatim>\<open>z\<close> and keeps every other character; on a name
  with a character outside ASCII the result is what the Unicode tables give.
\<close>

definition is_ascii :: "char \<Rightarrow> bool" where
  "is_ascii c = ((of_char c :: nat) < 128)"

definition lower_char :: "char \<Rightarrow> char" where
  "lower_char c =
     (let n = of_char c :: nat in if 65 \<le> n \<and> n \<le> 90 then char_of (n + 32) else c)"

definition lower :: "string \<Rightarrow> string" where
  "lower s = (if list_all is_ascii s then map lower_char s else unicode_lower s)"

lemma digit_char_inj: "a < 10 \<Longrightarrow> b < 10 \<Longrightarrow> digit_char a = digit_char b \<Longrightarrow> a = b"
proof -
  assume a: "a < 10" and b: "b < 10" and e: "digit_char a = digit_char b"
  from e have "of_char (char_of (48 + a) :: char) = (of_char (char_of (48 + b) :: char) :: nat)"
    by (simp add: digit_char_def)
  with a b show "a = b" by simp
qed

lemma str_nonempty: "str n \<noteq> []"
  by (subst str.simps) simp

lemma str_inj: "str n = str m \<Longrightarrow> n = m"
proof (induction n arbitrary: m rule: str.induct)
  case (1 n)
  show ?case
  proof (cases "n < 10")
    case small_n: True
    show ?thesis
    proof (cases "m < 10")
      case True
      with small_n "1.prems" show ?thesis
        by (simp add: str.simps [of n] str.simps [of m] digit_char_inj)
    next
      case False
      with small_n "1.prems" str_nonempty [of "m div 10"] show ?thesis
        by (simp add: str.simps [of n] str.simps [of m])
    qed
  next
    case big_n: False
    show ?thesis
    proof (cases "m < 10")
      case True
      with big_n "1.prems" str_nonempty [of "n div 10"] show ?thesis
        by (simp add: str.simps [of n] str.simps [of m])
    next
      case False
      with big_n "1.prems" have s: "str (n div 10) = str (m div 10)"
        and d: "digit_char (n mod 10) = digit_char (m mod 10)"
        by (simp_all add: str.simps [of n] str.simps [of m])
      from "1.IH" [OF big_n s] have q: "n div 10 = m div 10" .
      from d have r: "n mod 10 = m mod 10" by (simp add: digit_char_inj)
      from q r show ?thesis by (metis div_mult_mod_eq)
    qed
  qed
qed

text \<open>
  \<^verbatim>\<open>mypy.util.get_unique_redefinition_name(name, existing)\<close>: \<^verbatim>\<open>name-redefinition\<close> when
  that is not in \<^verbatim>\<open>existing\<close>, otherwise \<^verbatim>\<open>name-redefinition<i>\<close> for the least
  \<^verbatim>\<open>i\<close> from 2 on that is not taken. \<open>redefinition_index\<close> is its \<^verbatim>\<open>while\<close> loop.
\<close>

function redefinition_index :: "string \<Rightarrow> string list \<Rightarrow> nat \<Rightarrow> nat" where
  "redefinition_index r_name existing i =
     (if r_name @ str i \<in> set existing then redefinition_index r_name existing (Suc i) else i)"
  by pat_completeness auto
termination
proof (relation "measure (\<lambda>(r_name, existing, i).
    length (filter (\<lambda>k. \<exists>j\<ge>i. k = r_name @ str j) existing))", goal_cases)
  case 1
  show ?case by simp
next
  case (2 r_name existing i)
  let ?P = "\<lambda>k. \<exists>j\<ge>Suc i. k = r_name @ str j"
  let ?Q = "\<lambda>k. \<exists>j\<ge>i. k = r_name @ str j"
  have sub: "filter ?P existing = filter ?P (filter ?Q existing)"
    by (auto intro!: filter_cong dest: Suc_leD)
  have mem: "r_name @ str i \<in> set (filter ?Q existing)"
    using 2 by auto
  have out: "\<not> ?P (r_name @ str i)"
    by (auto dest: str_inj)
  have "length (filter ?P (filter ?Q existing)) < length (filter ?Q existing)"
    using mem out by (rule length_filter_less)
  with sub show ?case by simp
qed

declare redefinition_index.simps [simp del]

definition get_unique_redefinition_name :: "string \<Rightarrow> string list \<Rightarrow> string" where
  "get_unique_redefinition_name name existing =
     (let r_name = name @ ''-redefinition''
      in if r_name \<notin> set existing then r_name
         else r_name @ str (redefinition_index r_name existing 2))"

section \<open>The plugin\<close>

definition ADT_DECORATOR :: string where
  "ADT_DECORATOR = ''adt.decorator.adt''"

text \<open>
  The loop of \<^verbatim>\<open>_add_method\<close> over the arguments: it asserts that each argument has a
  type annotation and collects the argument types, names and kinds.
\<close>

fun signature_parts ::
  "argument list \<Rightarrow> error + (mtype list \<times> string option list \<times> arg_kind list)" where
  "signature_parts [] = Inr ([], [], [])"
| "signature_parts (arg # args) =
     (case type_annotation arg of
        None \<Rightarrow> Inl (AssertionError ''All arguments must be fully typed.'')
      | Some t \<Rightarrow>
          (case signature_parts args of
             Inl e \<Rightarrow> Inl e
           | Inr (types, names', kinds) \<Rightarrow>
               Inr (t # types, Some (var_name (variable arg)) # names', kind arg # kinds)))"

text \<open>
  The first step of \<^verbatim>\<open>_add_method\<close>: when \<open>name\<close> maps to a plugin-generated symbol
  whose node is a \<^verbatim>\<open>FuncDef\<close>, that node is removed from the class body.
  \<^verbatim>\<open>list.remove\<close> raises \<^verbatim>\<open>ValueError\<close> when the node is not in the list.
\<close>

definition remove_generated :: "class_def_context \<Rightarrow> string \<Rightarrow> error + class_def_context" where
  "remove_generated ctx name =
     (case map_of (names (info ctx)) name of
        None \<Rightarrow> Inr ctx
      | Some s \<Rightarrow>
          (case node s of
             FuncDefNode f \<Rightarrow>
               if plugin_generated s then
                 (if FuncDefStmt f \<in> set (body ctx)
                  then Inr (ctx\<lparr>body := remove1 (FuncDefStmt f) (body ctx)\<rparr>)
                  else Inl ValueError)
               else Inr ctx
           | _ \<Rightarrow> Inr ctx))"

text \<open>
  The argument \<^verbatim>\<open>first\<close> of \<^verbatim>\<open>_add_method\<close>: \<^verbatim>\<open>cls\<close>, typed \<^verbatim>\<open>Any\<close>, for a class
  method; otherwise \<^verbatim>\<open>self\<close>, typed \<^verbatim>\<open>self_type or fill_typevars(info)\<close>.
\<close>

definition first_argument :: "type_info \<Rightarrow> mtype option \<Rightarrow> bool \<Rightarrow> argument" where
  "first_argument ti self_type is_classmethod =
     (if is_classmethod then
        \<lparr>variable = \<lparr>var_name = ''cls'', var_type = None\<rparr>,
         type_annotation = Some (AnyType implementation_artifact),
         initializer = None, kind = ARG_POS\<rparr>
      else
        \<lparr>variable = \<lparr>var_name = ''self'', var_type = None\<rparr>,
         type_annotation = Some (case self_type of Some t \<Rightarrow> t | None \<Rightarrow> fill_typevars ti),
         initializer = None, kind = ARG_POS\<rparr>)"

text \<open>
  \<^verbatim>\<open>_add_method\<close>. The result is the exception raised, if any, and the context as the
  call leaves it (a raise keeps the mutations made before it).
\<close>

definition add_method ::
  "class_def_context \<Rightarrow> string \<Rightarrow> argument list \<Rightarrow> mtype \<Rightarrow> mtype option \<Rightarrow>
   tvar_def option \<Rightarrow> bool \<Rightarrow> error option \<times> class_def_context" where
  "add_method ctx name args return_type self_type tvar_def is_classmethod =
     (case remove_generated ctx name of
        Inl e \<Rightarrow> (Some e, ctx)
      | Inr ctx1 \<Rightarrow>
          (let ti = info ctx1;
               args1 = first_argument ti self_type is_classmethod # args;
               function_type = named_type ''__builtins__.function''
           in case signature_parts args1 of
                Inl e \<Rightarrow> (Some e, ctx1)
              | Inr (types, names', kinds) \<Rightarrow>
                  (let signature = CallableType types kinds names' return_type
                         function_type
                         (case tvar_def of Some tv \<Rightarrow> [tv] | None \<Rightarrow> []) None;
                       func = \<lparr>fd_oid = next_oid ctx1, fd_name = name, arguments = args1,
                               fd_info = fullname ti, is_class = is_classmethod,
                               fd_type = Some (set_callable_name signature name ti),
                               fd_fullname = fullname ti @ ''.'' @ name,
                               fd_line = line ti\<rparr>;
                       names1 =
                         (case map_of (names ti) name of
                            None \<Rightarrow> names ti
                          | Some existing \<Rightarrow>
                              AList.update
                                (get_unique_redefinition_name name (map fst (names ti)))
                                existing (names ti))
                   in (None,
                       ctx1\<lparr>body := body ctx1 @ [FuncDefStmt func],
                            info := ti\<lparr>names :=
                              AList.update name
                                \<lparr>sym_kind = MDEF, node = FuncDefNode func,
                                 plugin_generated = True\<rparr> names1\<rparr>,
                            next_oid := Suc (next_oid ctx1)\<rparr>))))"

text \<open>
  \<^verbatim>\<open>TypeInfo.__getitem__\<close>: the first table of the method resolution order that has the
  name; \<^verbatim>\<open>KeyError\<close> when none has.
\<close>

fun mro_get :: "symbol_table list \<Rightarrow> string \<Rightarrow> symbol_table_node option" where
  "mro_get [] name = None"
| "mro_get (t # ts) name =
     (case map_of t name of Some n \<Rightarrow> Some n | None \<Rightarrow> mro_get ts name)"

definition info_get :: "type_info \<Rightarrow> string \<Rightarrow> symbol_table_node option" where
  "info_get ti name = mro_get (names ti # mro_tail ti) name"

text \<open>
  \<^verbatim>\<open>_get_class_vars\<close>: the names of the \<^verbatim>\<open>NameExpr\<close> lvalues of the assignment
  statements of the class body, in order; each is looked up in the class, and the nodes
  that are a \<^verbatim>\<open>Var\<close> are kept.
\<close>

fun lvalue_names :: "expression list \<Rightarrow> string list" where
  "lvalue_names [] = []"
| "lvalue_names (NameExpr n # lvalues) = n # lvalue_names lvalues"
| "lvalue_names (OtherExpr # lvalues) = lvalue_names lvalues"

fun assigned_names :: "statement list \<Rightarrow> string list" where
  "assigned_names [] = []"
| "assigned_names (AssignmentStmt lvalues # stmts) = lvalue_names lvalues @ assigned_names stmts"
| "assigned_names (stmt # stmts) = assigned_names stmts"

fun lookup_vars :: "type_info \<Rightarrow> string list \<Rightarrow> error + var list" where
  "lookup_vars ti [] = Inr []"
| "lookup_vars ti (n # ns) =
     (case info_get ti n of
        None \<Rightarrow> Inl (KeyError n)
      | Some s \<Rightarrow>
          (case lookup_vars ti ns of
             Inl e \<Rightarrow> Inl e
           | Inr vs \<Rightarrow> (case node s of VarNode v \<Rightarrow> Inr (v # vs) | _ \<Rightarrow> Inr vs)))"

definition get_class_vars :: "class_def_context \<Rightarrow> error + var list" where
  "get_class_vars ctx = lookup_vars (info ctx) (assigned_names (body ctx))"

text \<open>\<^verbatim>\<open>_add_typevar\<close>: the updated context and the \<^verbatim>\<open>TypeVarDef\<close> it returns.\<close>

definition add_typevar :: "class_def_context \<Rightarrow> string \<Rightarrow> class_def_context \<times> tvar_def" where
  "add_typevar ctx tVarName =
     (let typeInfo = info ctx;
          tVarQualifiedName = fullname typeInfo @ ''.'' @ tVarName;
          objectType = named_type ''__builtins__.object'';
          tVarExpr = \<lparr>tve_name = tVarName, tve_fullname = tVarQualifiedName,
                      tve_values = [], tve_upper_bound = objectType\<rparr>
      in (ctx\<lparr>info := typeInfo\<lparr>names :=
                AList.update tVarName
                  \<lparr>sym_kind = MDEF, node = TypeVarExprNode tVarExpr,
                   plugin_generated = False\<rparr> (names typeInfo)\<rparr>\<rparr>,
          TypeVarDef tVarName tVarQualifiedName (- 1) [] objectType))"

definition callable_type_for_adt_case :: "var \<Rightarrow> tvar_def \<Rightarrow> mtype" where
  "callable_type_for_adt_case c resultType =
     CallableType [case var_type c of Some t \<Rightarrow> t | None \<Rightarrow> AnyType unannotated]
       [ARG_POS] [None] (TypeVarType resultType) (named_type ''__builtins__.function'')
       [resultType] None"

text \<open>
  The \<^verbatim>\<open>for case in cases\<close> loop of \<^verbatim>\<open>_transform_class\<close>: per case the assertion that
  the case is typed, the constructor and the accessor.
\<close>

fun add_case_methods ::
  "class_def_context \<Rightarrow> mtype \<Rightarrow> var list \<Rightarrow> error option \<times> class_def_context" where
  "add_case_methods ctx instanceType [] = (None, ctx)"
| "add_case_methods ctx instanceType (c # cases) =
     (case var_type c of
        None \<Rightarrow>
          (Some (AssertionError ''Untyped cases are not currently supported in adt.mypy_plugin''),
           ctx)
      | Some t \<Rightarrow>
          (case add_method ctx (var_name c)
                  [\<lparr>variable = c, type_annotation = Some t, initializer = None,
                    kind = ARG_POS\<rparr>]
                  instanceType None None True of
             (Some e, ctx1) \<Rightarrow> (Some e, ctx1)
           | (None, ctx1) \<Rightarrow>
               (case add_method ctx1 (lower (var_name c)) [] t None None False of
                  (Some e, ctx2) \<Rightarrow> (Some e, ctx2)
                | (None, ctx2) \<Rightarrow> add_case_methods ctx2 instanceType cases)))"

text \<open>
  The dictionary \<^verbatim>\<open>caseCallables\<close>, keyed by the case, and the list \<^verbatim>\<open>matchArgs\<close> built
  from its items.
\<close>

definition caseCallables :: "var list \<Rightarrow> tvar_def \<Rightarrow> (var \<times> mtype) list" where
  "caseCallables cases matchResultType =
     foldl (\<lambda>d c. AList.update c (callable_type_for_adt_case c matchResultType) d) [] cases"

definition match_arg :: "var \<times> mtype \<Rightarrow> argument" where
  "match_arg item =
     (case item of (c, callableType) \<Rightarrow>
        \<lparr>variable = \<lparr>var_name = lower (var_name c), var_type = Some callableType\<rparr>,
         type_annotation = Some callableType, initializer = None, kind = ARG_NAMED\<rparr>)"

definition matchArgs :: "var list \<Rightarrow> tvar_def \<Rightarrow> argument list" where
  "matchArgs cases matchResultType = map match_arg (caseCallables cases matchResultType)"

text \<open>
  \<^verbatim>\<open>_transform_class\<close> after \<^verbatim>\<open>cases\<close> has been computed, and \<^verbatim>\<open>_transform_class\<close>
  itself.
\<close>

definition transform_cases ::
  "class_def_context \<Rightarrow> mtype \<Rightarrow> var list \<Rightarrow> error option \<times> class_def_context" where
  "transform_cases ctx instanceType cases =
     (case add_case_methods ctx instanceType cases of
        (Some e, ctx1) \<Rightarrow> (Some e, ctx1)
      | (None, ctx1) \<Rightarrow>
          (case add_typevar ctx1 ''_MatchResult'' of
             (ctx2, matchResultType) \<Rightarrow>
               add_method ctx2 ''match'' (matchArgs cases matchResultType)
                 (TypeVarType matchResultType) None (Some matchResultType) False))"

definition transform_class :: "class_def_context \<Rightarrow> error option \<times> class_def_context" where
  "transform_class ctx =
     (let instanceType = fill_typevars (info ctx)
      in if \<not> is_Instance instanceType then (Some (AssertionError []), ctx)
         else case get_class_vars ctx of
                Inl e \<Rightarrow> (Some e, ctx)
              | Inr cases \<Rightarrow> transform_cases ctx instanceType cases)"

definition get_class_decorator_hook ::
  "string \<Rightarrow> (class_def_context \<Rightarrow> error option \<times> class_def_context) option" where
  "get_class_decorator_hook fullname' =
     (if fullname' \<noteq> ADT_DECORATOR then None else Some transform_class)"

section \<open>Facts about the host functions\<close>

lemma redefinition_index_fresh:
  "r_name @ str (redefinition_index r_name existing i) \<notin> set existing"
proof (induction r_name existing i rule: redefinition_index.induct)
  case (1 r_name existing i)
  then show ?case by (subst redefinition_index.simps) simp
qed

lemma get_unique_redefinition_name_fresh:
  "get_unique_redefinition_name name existing \<notin> set existing"
  using redefinition_index_fresh [of "name @ ''-redefinition''" existing 2]
  by (simp add: get_unique_redefinition_name_def Let_def)

lemma fresh_key_map_of:
  "map_of al (get_unique_redefinition_name name (map fst al)) = None"
  using get_unique_redefinition_name_fresh [of name "map fst al"]
  by (simp add: map_of_eq_None_iff)

section \<open>One call of \<^verbatim>\<open>_add_method\<close>\<close>

text \<open>
  The class without its symbol table: what no step of the plugin changes.
\<close>

definition erase_names :: "type_info \<Rightarrow> type_info" where
  "erase_names ti = ti\<lparr>names := []\<rparr>"

text \<open>
  The lookups in the symbol table after a method \<open>f\<close> has been installed under \<open>name\<close>:
  an existing entry is kept under its redefinition name.
\<close>

definition names_after_install ::
  "type_info \<Rightarrow> string \<Rightarrow> func_def \<Rightarrow> string \<Rightarrow> symbol_table_node option" where
  "names_after_install ti name f =
     (case map_of (names ti) name of
        None \<Rightarrow> map_of (names ti)
      | Some existing \<Rightarrow>
          (map_of (names ti))
            (get_unique_redefinition_name name (map fst (names ti)) \<mapsto> existing))
     (name \<mapsto> \<lparr>sym_kind = MDEF, node = FuncDefNode f, plugin_generated = True\<rparr>)"

lemma erase_names_fields:
  "fullname ti = fullname (erase_names ti)" "info_name ti = info_name (erase_names ti)"
  "line ti = line (erase_names ti)" "mro_tail ti = mro_tail (erase_names ti)"
  "type_vars ti = type_vars (erase_names ti)" "tuple_type ti = tuple_type (erase_names ti)"
  by (simp_all add: erase_names_def)

lemma remove_generated_info:
  "remove_generated ctx name = Inr ctx1 \<Longrightarrow>
   info ctx1 = info ctx \<and> next_oid ctx1 = next_oid ctx"
  by (auto simp: remove_generated_def split: option.splits symbol_node.splits if_splits)

lemma signature_parts_Inr:
  "signature_parts args = Inr (ts, ns, ks) \<Longrightarrow>
   map Some ts = map type_annotation args \<and>
   ns = map (\<lambda>a. Some (var_name (variable a))) args \<and> ks = map kind args"
  by (induction args arbitrary: ts ns ks) (auto split: option.splits sum.splits)

lemma add_method_None:
  assumes "add_method ctx name args rt st tv ic = (None, ctx')"
  shows "\<exists>ctx1 f ts.
     remove_generated ctx name = Inr ctx1 \<and>
     map Some ts = map type_annotation (first_argument (info ctx) st ic # args) \<and>
     f = \<lparr>fd_oid = next_oid ctx, fd_name = name,
          arguments = first_argument (info ctx) st ic # args,
          fd_info = fullname (info ctx), is_class = ic,
          fd_type = Some (set_callable_name
            (CallableType ts (map kind (first_argument (info ctx) st ic # args))
               (map (\<lambda>a. Some (var_name (variable a))) (first_argument (info ctx) st ic # args))
               rt (named_type ''__builtins__.function'')
               (case tv of Some t \<Rightarrow> [t] | None \<Rightarrow> []) None) name (info ctx)),
          fd_fullname = fullname (info ctx) @ ''.'' @ name, fd_line = line (info ctx)\<rparr> \<and>
     map_of (names (info ctx')) = names_after_install (info ctx) name f \<and>
     info ctx' = (info ctx)\<lparr>names := names (info ctx')\<rparr> \<and>
     body ctx' = body ctx1 @ [FuncDefStmt f] \<and>
     next_oid ctx' = Suc (next_oid ctx)"
proof -
  from assms obtain ctx1 where r: "remove_generated ctx name = Inr ctx1"
    by (auto simp: add_method_def split: sum.splits)
  from remove_generated_info [OF r] have i: "info ctx1 = info ctx" "next_oid ctx1 = next_oid ctx"
    by simp_all
  from assms r i obtain ts ns ks where
    sp: "signature_parts (first_argument (info ctx) st ic # args) = Inr (ts, ns, ks)"
    by (auto simp: add_method_def Let_def split: sum.splits)
  note parts = signature_parts_Inr [OF sp]
  show ?thesis
    using assms r i sp parts
    by (auto simp: add_method_def Let_def names_after_install_def update_conv'
        split: option.splits)
qed

lemma add_method_frame:
  assumes "add_method ctx name args rt st tv ic = (e, ctx')"
  shows "erase_names (info ctx') = erase_names (info ctx)"
proof (cases e)
  case None
  with assms obtain ns where "info ctx' = (info ctx)\<lparr>names := ns\<rparr>"
    using add_method_None by blast
  then show ?thesis by (simp add: erase_names_def)
next
  case (Some err)
  show ?thesis
  proof (cases "remove_generated ctx name")
    case (Inl x)
    with assms show ?thesis by (simp add: add_method_def)
  next
    case (Inr ctx1)
    from remove_generated_info [OF Inr] have i: "info ctx1 = info ctx" by simp
    from assms Some Inr have "ctx' = ctx1"
      by (simp add: add_method_def Let_def split: sum.splits prod.splits)
    with i show ?thesis by simp
  qed
qed

section \<open>The decorator hook\<close>

text \<open>
  Claim C8. \<^verbatim>\<open>get_class_decorator_hook(fullname)\<close> returns the class transformation if
  and only if \<open>fullname\<close> is exactly the string \<^verbatim>\<open>adt.decorator.adt\<close>, and returns
  \<^verbatim>\<open>None\<close> for every other name.
\<close>

theorem get_class_decorator_hook_exact:
  "(get_class_decorator_hook n = Some transform_class) = (n = ''adt.decorator.adt'') \<and>
   (get_class_decorator_hook n = None) = (n \<noteq> ''adt.decorator.adt'')"
  by (simp add: get_class_decorator_hook_def ADT_DECORATOR_def)

lemma add_method_preserves:
  assumes "add_method ctx name args rt st tv ic = (e, ctx')"
    and "map_of (names (info ctx)) k = Some s" and "k \<noteq> name"
  shows "map_of (names (info ctx')) k = Some s"
proof (cases e)
  case None
  with assms(1) obtain f where
    "map_of (names (info ctx')) = names_after_install (info ctx) name f"
    using add_method_None by blast
  moreover have "k \<noteq> get_unique_redefinition_name name (map fst (names (info ctx)))"
    using assms(2) fresh_key_map_of [of "names (info ctx)" name] by auto
  ultimately show ?thesis
    using assms(2,3) by (simp add: names_after_install_def split: option.splits)
next
  case (Some err)
  show ?thesis
  proof (cases "remove_generated ctx name")
    case (Inl x)
    with assms show ?thesis by (simp add: add_method_def)
  next
    case (Inr ctx1)
    from remove_generated_info [OF Inr] have i: "info ctx1 = info ctx" by simp
    from assms Some Inr have "ctx' = ctx1"
      by (simp add: add_method_def Let_def split: sum.splits prod.splits)
    with i assms(2) show ?thesis by simp
  qed
qed

section \<open>The loop over the cases\<close>

text \<open>
  The names under which the loop installs methods, in the order of the calls: for each
  case the constructor's name and the accessor's name. \<open>constructor_args\<close> is the
  argument list the loop passes for a constructor.
\<close>

fun method_names :: "var list \<Rightarrow> string list" where
  "method_names [] = []"
| "method_names (c # cases) = var_name c # lower (var_name c) # method_names cases"

definition constructor_args :: "var \<Rightarrow> mtype \<Rightarrow> argument list" where
  "constructor_args c t =
     [\<lparr>variable = c, type_annotation = Some t, initializer = None, kind = ARG_POS\<rparr>]"

lemma add_case_methods_Cons:
  assumes "add_case_methods ctx it (c # cases) = (e, ctx')"
  shows "(var_type c = None \<and> ctx' = ctx \<and> e \<noteq> None) \<or>
    (\<exists>t. var_type c = Some t \<and>
      ((\<exists>e1. add_method ctx (var_name c) (constructor_args c t) it None None True = (Some e1, ctx')
          \<and> e = Some e1) \<or>
       (\<exists>ctx1. add_method ctx (var_name c) (constructor_args c t) it None None True = (None, ctx1) \<and>
          ((\<exists>e2. add_method ctx1 (lower (var_name c)) [] t None None False = (Some e2, ctx')
              \<and> e = Some e2) \<or>
           (\<exists>ctx2. add_method ctx1 (lower (var_name c)) [] t None None False = (None, ctx2) \<and>
              add_case_methods ctx2 it cases = (e, ctx'))))))"
  using assms
  by (auto simp: constructor_args_def split: option.splits prod.splits)

lemma add_case_methods_frame:
  "add_case_methods ctx it cases = (e, ctx') \<Longrightarrow>
   erase_names (info ctx') = erase_names (info ctx)"
proof (induction cases arbitrary: ctx)
  case Nil
  then show ?case by simp
next
  case (Cons c cases)
  from add_case_methods_Cons [OF Cons.prems] show ?case
    using Cons.IH add_method_frame by (elim disjE exE conjE) (simp, metis+)
qed

lemma add_case_methods_preserves:
  "add_case_methods ctx it cases = (e, ctx') \<Longrightarrow>
   map_of (names (info ctx)) k = Some s \<Longrightarrow> k \<notin> set (method_names cases) \<Longrightarrow>
   map_of (names (info ctx')) k = Some s"
proof (induction cases arbitrary: ctx)
  case Nil
  then show ?case by simp
next
  case (Cons c cases)
  from Cons.prems(3) have k: "k \<noteq> var_name c" "k \<noteq> lower (var_name c)"
    "k \<notin> set (method_names cases)" by simp_all
  note p = add_method_preserves
  from add_case_methods_Cons [OF Cons.prems(1)] show ?case
  proof (elim disjE exE conjE)
    assume "ctx' = ctx"
    with Cons.prems(2) show ?thesis by simp
  next
    fix t e1
    assume "add_method ctx (var_name c) (constructor_args c t) it None None True = (Some e1, ctx')"
    from p [OF this Cons.prems(2) k(1)] show ?thesis .
  next
    fix t ctx1 e2
    assume a1: "add_method ctx (var_name c) (constructor_args c t) it None None True = (None, ctx1)"
      and a2: "add_method ctx1 (lower (var_name c)) [] t None None False = (Some e2, ctx')"
    from p [OF a2 p [OF a1 Cons.prems(2) k(1)] k(2)] show ?thesis .
  next
    fix t ctx1 ctx2
    assume a1: "add_method ctx (var_name c) (constructor_args c t) it None None True = (None, ctx1)"
      and a2: "add_method ctx1 (lower (var_name c)) [] t None None False = (None, ctx2)"
      and r: "add_case_methods ctx2 it cases = (e, ctx')"
    from Cons.IH [OF r p [OF a2 p [OF a1 Cons.prems(2) k(1)] k(2)] k(3)] show ?thesis .
  qed
qed

section \<open>A first pass over a class\<close>

text \<open>
  \<open>stale ctx name\<close>: the class already has a plugin-generated method under \<open>name\<close>, which
  is what the first step of \<^verbatim>\<open>_add_method\<close> tests for.
\<close>

definition stale :: "class_def_context \<Rightarrow> string \<Rightarrow> bool" where
  "stale ctx name =
     (case map_of (names (info ctx)) name of
        None \<Rightarrow> False
      | Some s \<Rightarrow> plugin_generated s \<and> (case node s of FuncDefNode f \<Rightarrow> True | _ \<Rightarrow> False))"

lemma remove_generated_not_stale: "\<not> stale ctx name \<Longrightarrow> remove_generated ctx name = Inr ctx"
  by (auto simp: stale_def remove_generated_def split: option.splits symbol_node.splits)

lemma signature_parts_typed:
  "list_all (\<lambda>a. type_annotation a \<noteq> None) args \<Longrightarrow> \<exists>p. signature_parts args = Inr p"
  by (induction args) (auto split: option.splits)

lemma first_argument_typed: "type_annotation (first_argument ti st ic) \<noteq> None"
  by (simp add: first_argument_def)

lemma add_method_no_error:
  assumes "remove_generated ctx name = Inr ctx1"
    and "list_all (\<lambda>a. type_annotation a \<noteq> None) args"
  shows "fst (add_method ctx name args rt st tv ic) = None"
proof -
  from assms(2) first_argument_typed [of "info ctx1" st ic]
  have "list_all (\<lambda>a. type_annotation a \<noteq> None) (first_argument (info ctx1) st ic # args)"
    by simp
  from signature_parts_typed [OF this] obtain p where
    "signature_parts (first_argument (info ctx1) st ic # args) = Inr p" ..
  with assms(1) show ?thesis
    by (cases p) (simp add: add_method_def Let_def)
qed

lemma add_method_NoneE:
  assumes "add_method ctx name args rt st tv ic = (None, ctx')"
  obtains ctx1 f ts where
    "remove_generated ctx name = Inr ctx1"
    "map Some ts = map type_annotation (first_argument (info ctx) st ic # args)"
    "fd_name f = name" "is_class f = ic" "fd_oid f = next_oid ctx"
    "arguments f = first_argument (info ctx) st ic # args"
    "fd_type f = Some (set_callable_name
        (CallableType ts (map kind (first_argument (info ctx) st ic # args))
           (map (\<lambda>a. Some (var_name (variable a))) (first_argument (info ctx) st ic # args))
           rt (named_type ''__builtins__.function'')
           (case tv of Some t \<Rightarrow> [t] | None \<Rightarrow> []) None) name (info ctx))"
    "map_of (names (info ctx')) = names_after_install (info ctx) name f"
    "body ctx' = body ctx1 @ [FuncDefStmt f]"
    "next_oid ctx' = Suc (next_oid ctx)"
proof -
  from add_method_None [OF assms] obtain ctx1 f ts where
    h: "remove_generated ctx name = Inr ctx1"
      "map Some ts = map type_annotation (first_argument (info ctx) st ic # args)"
      "f = \<lparr>fd_oid = next_oid ctx, fd_name = name,
          arguments = first_argument (info ctx) st ic # args,
          fd_info = fullname (info ctx), is_class = ic,
          fd_type = Some (set_callable_name
            (CallableType ts (map kind (first_argument (info ctx) st ic # args))
               (map (\<lambda>a. Some (var_name (variable a))) (first_argument (info ctx) st ic # args))
               rt (named_type ''__builtins__.function'')
               (case tv of Some t \<Rightarrow> [t] | None \<Rightarrow> []) None) name (info ctx)),
          fd_fullname = fullname (info ctx) @ ''.'' @ name, fd_line = line (info ctx)\<rparr>"
      "map_of (names (info ctx')) = names_after_install (info ctx) name f"
      "body ctx' = body ctx1 @ [FuncDefStmt f]"
      "next_oid ctx' = Suc (next_oid ctx)"
    by blast
  have sel: "fd_name f = name" "is_class f = ic" "fd_oid f = next_oid ctx"
    "arguments f = first_argument (info ctx) st ic # args"
    "fd_type f = Some (set_callable_name
        (CallableType ts (map kind (first_argument (info ctx) st ic # args))
           (map (\<lambda>a. Some (var_name (variable a))) (first_argument (info ctx) st ic # args))
           rt (named_type ''__builtins__.function'')
           (case tv of Some t \<Rightarrow> [t] | None \<Rightarrow> []) None) name (info ctx))"
    unfolding h(3) by simp_all
  from h(1,2) sel h(4,5,6) show thesis by (rule that)
qed

lemma add_method_first_pass:
  assumes "\<not> stale ctx name" and "list_all (\<lambda>a. type_annotation a \<noteq> None) args"
  shows "\<exists>ctx' f. add_method ctx name args rt st tv ic = (None, ctx') \<and>
    body ctx' = body ctx @ [FuncDefStmt f] \<and> fd_name f = name \<and>
    (\<forall>k. k \<noteq> name \<longrightarrow> \<not> stale ctx k \<longrightarrow> \<not> stale ctx' k)"
proof -
  note r = remove_generated_not_stale [OF assms(1)]
  from add_method_no_error [OF r assms(2)] obtain ctx' where
    a: "add_method ctx name args rt st tv ic = (None, ctx')"
    by (metis prod.collapse)
  from a obtain ctx1 f where
    g: "remove_generated ctx name = Inr ctx1" "fd_name f = name"
      "body ctx' = body ctx1 @ [FuncDefStmt f]"
      "map_of (names (info ctx')) = names_after_install (info ctx) name f"
    by (rule add_method_NoneE)
  from g(1) r have "ctx1 = ctx" by simp
  with g have f: "fd_name f = name" "body ctx' = body ctx @ [FuncDefStmt f]"
      "map_of (names (info ctx')) = names_after_install (info ctx) name f"
    by simp_all
  have "\<not> stale ctx' k" if "k \<noteq> name" "\<not> stale ctx k" for k
    using that assms(1) f(3)
    by (auto simp: stale_def names_after_install_def split: option.splits if_splits)
  with a f show ?thesis by blast
qed

lemma add_case_methods_step:
  "var_type c = Some t \<Longrightarrow>
   add_method ctx (var_name c) (constructor_args c t) it None None True = (None, ctx1) \<Longrightarrow>
   add_method ctx1 (lower (var_name c)) [] t None None False = (None, ctx2) \<Longrightarrow>
   add_case_methods ctx it (c # cases) = add_case_methods ctx2 it cases"
  by (simp add: constructor_args_def)

lemma add_case_methods_first_pass:
  assumes "list_all (\<lambda>c. var_type c \<noteq> None) cases"
    and "distinct (method_names cases)"
    and "list_all (\<lambda>k. \<not> stale ctx k) (method_names cases)"
  shows "\<exists>ctx' fs. add_case_methods ctx it cases = (None, ctx') \<and>
    body ctx' = body ctx @ map FuncDefStmt fs \<and> map fd_name fs = method_names cases \<and>
    (\<forall>k. k \<notin> set (method_names cases) \<longrightarrow> \<not> stale ctx k \<longrightarrow> \<not> stale ctx' k)"
  using assms
proof (induction cases arbitrary: ctx)
  case Nil
  show ?case by (rule exI [of _ ctx], rule exI [of _ "[]"]) simp
next
  case (Cons c cases)
  from Cons.prems(1) obtain t where t: "var_type c = Some t" and
    typed: "list_all (\<lambda>c. var_type c \<noteq> None) cases" by auto
  from Cons.prems(2) have d: "var_name c \<noteq> lower (var_name c)"
    "var_name c \<notin> set (method_names cases)" "lower (var_name c) \<notin> set (method_names cases)"
    "distinct (method_names cases)" by auto
  from Cons.prems(3) have s: "\<not> stale ctx (var_name c)" "\<not> stale ctx (lower (var_name c))"
    "list_all (\<lambda>k. \<not> stale ctx k) (method_names cases)" by simp_all
  have ca: "list_all (\<lambda>a. type_annotation a \<noteq> None) (constructor_args c t)"
    by (simp add: constructor_args_def)
  from add_method_first_pass [OF s(1) ca, of it None None True] obtain ctx1 f1 where
    a1: "add_method ctx (var_name c) (constructor_args c t) it None None True = (None, ctx1)"
    and b1: "body ctx1 = body ctx @ [FuncDefStmt f1]" "fd_name f1 = var_name c"
    and k1: "\<And>k. k \<noteq> var_name c \<Longrightarrow> \<not> stale ctx k \<Longrightarrow> \<not> stale ctx1 k"
    by blast
  from k1 [OF _ s(2)] d(1) have s1: "\<not> stale ctx1 (lower (var_name c))" by auto
  have "list_all (\<lambda>a. type_annotation a \<noteq> None) []" by simp
  from add_method_first_pass [OF s1 this, of t None None False] obtain ctx2 f2 where
    a2: "add_method ctx1 (lower (var_name c)) [] t None None False = (None, ctx2)"
    and b2: "body ctx2 = body ctx1 @ [FuncDefStmt f2]" "fd_name f2 = lower (var_name c)"
    and k2: "\<And>k. k \<noteq> lower (var_name c) \<Longrightarrow> \<not> stale ctx1 k \<Longrightarrow> \<not> stale ctx2 k"
    by blast
  have keep: "\<not> stale ctx2 k" if "k \<noteq> var_name c" "k \<noteq> lower (var_name c)" "\<not> stale ctx k" for k
    using that k1 k2 by blast
  have s2: "list_all (\<lambda>k. \<not> stale ctx2 k) (method_names cases)"
    unfolding list_all_iff
  proof
    fix k assume m: "k \<in> set (method_names cases)"
    with d(2,3) have "k \<noteq> var_name c" "k \<noteq> lower (var_name c)" by auto
    moreover from m s(3) have "\<not> stale ctx k" by (simp add: list_all_iff)
    ultimately show "\<not> stale ctx2 k" by (rule keep)
  qed
  from Cons.IH [OF typed d(4) s2] obtain ctx' fs where
    r: "add_case_methods ctx2 it cases = (None, ctx')"
    and b: "body ctx' = body ctx2 @ map FuncDefStmt fs" "map fd_name fs = method_names cases"
    and k: "\<And>k. k \<notin> set (method_names cases) \<Longrightarrow> \<not> stale ctx2 k \<Longrightarrow> \<not> stale ctx' k"
    by blast
  have 1: "add_case_methods ctx it (c # cases) = (None, ctx')"
    using add_case_methods_step [OF t a1 a2] r by simp
  have 2: "body ctx' = body ctx @ map FuncDefStmt (f1 # f2 # fs)"
    using b(1) b1(1) b2(1) by simp
  have 3: "map fd_name (f1 # f2 # fs) = method_names (c # cases)"
    using b(2) b1(2) b2(2) by simp
  have 4: "\<forall>k. k \<notin> set (method_names (c # cases)) \<longrightarrow> \<not> stale ctx k \<longrightarrow> \<not> stale ctx' k"
    using keep k by simp
  from 1 2 3 4 show ?case by blast
qed

section \<open>The shape of the generated methods\<close>

text \<open>
  \<open>is_constructor ti c t entry\<close>: the symbol table entry is the plugin-generated class
  method named as the case \<open>c\<close>, taking \<^verbatim>\<open>cls\<close> and one positional argument of the
  case's type \<open>t\<close> and returning the class's own type. \<open>is_accessor ti c t entry\<close>: the
  entry is the plugin-generated instance method named as the case in lower case, taking
  \<^verbatim>\<open>self\<close> only and returning \<open>t\<close>.
\<close>

definition is_constructor :: "type_info \<Rightarrow> var \<Rightarrow> mtype \<Rightarrow> symbol_table_node option \<Rightarrow> bool" where
  "is_constructor ti c t entry =
     (case entry of
        None \<Rightarrow> False
      | Some s \<Rightarrow>
          sym_kind s = MDEF \<and> plugin_generated s \<and>
          (case node s of
             FuncDefNode f \<Rightarrow>
               fd_name f = var_name c \<and> is_class f \<and>
               arguments f =
                 [\<lparr>variable = \<lparr>var_name = ''cls'', var_type = None\<rparr>,
                   type_annotation = Some (AnyType implementation_artifact),
                   initializer = None, kind = ARG_POS\<rparr>,
                  \<lparr>variable = c, type_annotation = Some t, initializer = None, kind = ARG_POS\<rparr>] \<and>
               fd_type f = Some (set_callable_name
                 (CallableType [AnyType implementation_artifact, t] [ARG_POS, ARG_POS]
                    [Some ''cls'', Some (var_name c)] (fill_typevars ti)
                    (named_type ''__builtins__.function'') [] None) (var_name c) ti)
           | _ \<Rightarrow> False))"

definition is_accessor :: "type_info \<Rightarrow> var \<Rightarrow> mtype \<Rightarrow> symbol_table_node option \<Rightarrow> bool" where
  "is_accessor ti c t entry =
     (case entry of
        None \<Rightarrow> False
      | Some s \<Rightarrow>
          sym_kind s = MDEF \<and> plugin_generated s \<and>
          (case node s of
             FuncDefNode f \<Rightarrow>
               fd_name f = lower (var_name c) \<and> \<not> is_class f \<and>
               arguments f =
                 [\<lparr>variable = \<lparr>var_name = ''self'', var_type = None\<rparr>,
                   type_annotation = Some (fill_typevars ti),
                   initializer = None, kind = ARG_POS\<rparr>] \<and>
               fd_type f = Some (set_callable_name
                 (CallableType [fill_typevars ti] [ARG_POS] [Some ''self''] t
                    (named_type ''__builtins__.function'') [] None) (lower (var_name c)) ti)
           | _ \<Rightarrow> False))"

lemma fill_typevars_erase: "fill_typevars ti = fill_typevars (erase_names ti)"
  by (simp add: fill_typevars_def erase_names_def)

lemma set_callable_name_erase: "set_callable_name sig n ti = set_callable_name sig n (erase_names ti)"
  by (cases sig) (simp_all add: erase_names_def)

lemma same_class_shapes:
  assumes "erase_names ti = erase_names ti'"
  shows "is_constructor ti c t e = is_constructor ti' c t e"
    and "is_accessor ti c t e = is_accessor ti' c t e"
proof -
  have f: "fill_typevars ti = fill_typevars ti'"
    using assms fill_typevars_erase by metis
  have n: "set_callable_name sig n ti = set_callable_name sig n ti'" for sig n
    using assms set_callable_name_erase by metis
  show "is_constructor ti c t e = is_constructor ti' c t e"
    unfolding is_constructor_def f n ..
  show "is_accessor ti c t e = is_accessor ti' c t e"
    unfolding is_accessor_def f n ..
qed

lemma add_method_constructor:
  assumes "add_method ctx (var_name c) (constructor_args c t) (fill_typevars (info ctx))
             None None True = (None, ctx')"
  shows "is_constructor (info ctx) c t (map_of (names (info ctx')) (var_name c))"
proof -
  from assms obtain f ts where
    h: "map Some ts = map type_annotation (first_argument (info ctx) None True # constructor_args c t)"
      "fd_name f = var_name c" "is_class f = True"
      "arguments f = first_argument (info ctx) None True # constructor_args c t"
      "fd_type f = Some (set_callable_name
        (CallableType ts (map kind (first_argument (info ctx) None True # constructor_args c t))
           (map (\<lambda>a. Some (var_name (variable a)))
              (first_argument (info ctx) None True # constructor_args c t))
           (fill_typevars (info ctx)) (named_type ''__builtins__.function'')
           (case None of Some t \<Rightarrow> [t] | None \<Rightarrow> []) None) (var_name c) (info ctx))"
      "map_of (names (info ctx')) = names_after_install (info ctx) (var_name c) f"
    by (rule add_method_NoneE)
  from h(1) have ts: "ts = [AnyType implementation_artifact, t]"
    by (auto simp: first_argument_def constructor_args_def)
  show ?thesis
    using h(2-6) ts
    by (simp add: is_constructor_def names_after_install_def first_argument_def
        constructor_args_def split: option.splits)
qed

lemma add_method_accessor:
  assumes "add_method ctx (lower (var_name c)) [] t None None False = (None, ctx')"
  shows "is_accessor (info ctx) c t (map_of (names (info ctx')) (lower (var_name c)))"
proof -
  from assms obtain f ts where
    h: "map Some ts = map type_annotation (first_argument (info ctx) None False # [])"
      "fd_name f = lower (var_name c)" "is_class f = False"
      "arguments f = first_argument (info ctx) None False # []"
      "fd_type f = Some (set_callable_name
        (CallableType ts (map kind (first_argument (info ctx) None False # []))
           (map (\<lambda>a. Some (var_name (variable a))) (first_argument (info ctx) None False # []))
           t (named_type ''__builtins__.function'')
           (case None of Some t \<Rightarrow> [t] | None \<Rightarrow> []) None) (lower (var_name c)) (info ctx))"
      "map_of (names (info ctx')) = names_after_install (info ctx) (lower (var_name c)) f"
    by (rule add_method_NoneE)
  from h(1) have ts: "ts = [fill_typevars (info ctx)]"
    by (auto simp: first_argument_def)
  show ?thesis
    using h(2-6) ts
    by (simp add: is_accessor_def names_after_install_def first_argument_def
        split: option.splits)
qed

lemma is_constructor_Some: "is_constructor ti c t e \<Longrightarrow> \<exists>s. e = Some s"
  by (cases e) (simp_all add: is_constructor_def)

lemma is_accessor_Some: "is_accessor ti c t e \<Longrightarrow> \<exists>s. e = Some s"
  by (cases e) (simp_all add: is_accessor_def)

lemma add_case_methods_installs:
  assumes "add_case_methods ctx it cases = (None, ctx')"
    and "it = fill_typevars (info ctx)"
    and "distinct (method_names cases)" and "c \<in> set cases"
  shows "\<exists>t. var_type c = Some t \<and>
    is_constructor (info ctx) c t (map_of (names (info ctx')) (var_name c)) \<and>
    is_accessor (info ctx) c t (map_of (names (info ctx')) (lower (var_name c)))"
  using assms
proof (induction cases arbitrary: ctx)
  case Nil
  then show ?case by simp
next
  case (Cons c0 cases)
  from add_case_methods_Cons [OF Cons.prems(1)] obtain t ctx1 ctx2 where
    t: "var_type c0 = Some t"
    and a1: "add_method ctx (var_name c0) (constructor_args c0 t) it None None True = (None, ctx1)"
    and a2: "add_method ctx1 (lower (var_name c0)) [] t None None False = (None, ctx2)"
    and r: "add_case_methods ctx2 it cases = (None, ctx')"
    by auto
  from Cons.prems(3) have d: "var_name c0 \<noteq> lower (var_name c0)"
    "var_name c0 \<notin> set (method_names cases)" "lower (var_name c0) \<notin> set (method_names cases)"
    "distinct (method_names cases)" by auto
  note e1 = add_method_frame [OF a1] and e2 = add_method_frame [OF a2]
  have it2: "it = fill_typevars (info ctx2)"
    using Cons.prems(2) e1 e2 fill_typevars_erase by metis
  show ?case
  proof (cases "c = c0")
    case True
    from a1 Cons.prems(2)
    have "is_constructor (info ctx) c0 t (map_of (names (info ctx1)) (var_name c0))"
      by (simp add: add_method_constructor)
    then obtain s where s: "map_of (names (info ctx1)) (var_name c0) = Some s"
      and cs: "is_constructor (info ctx) c0 t (Some s)"
      using is_constructor_Some by fastforce
    from add_method_preserves [OF a2 s d(1)]
    have "map_of (names (info ctx2)) (var_name c0) = Some s" .
    from add_case_methods_preserves [OF r this d(2)]
    have 1: "map_of (names (info ctx')) (var_name c0) = Some s" .
    from a2 have "is_accessor (info ctx1) c0 t (map_of (names (info ctx2)) (lower (var_name c0)))"
      by (rule add_method_accessor)
    with same_class_shapes(2) [OF e1]
    have "is_accessor (info ctx) c0 t (map_of (names (info ctx2)) (lower (var_name c0)))"
      by simp
    then obtain s' where s': "map_of (names (info ctx2)) (lower (var_name c0)) = Some s'"
      and as: "is_accessor (info ctx) c0 t (Some s')"
      using is_accessor_Some by fastforce
    from add_case_methods_preserves [OF r s' d(3)]
    have 2: "map_of (names (info ctx')) (lower (var_name c0)) = Some s'" .
    from True t 1 2 cs as show ?thesis by simp
  next
    case False
    with Cons.prems(4) have "c \<in> set cases" by simp
    from Cons.IH [OF r it2 d(4) this] obtain t' where
      h: "var_type c = Some t'"
        "is_constructor (info ctx2) c t' (map_of (names (info ctx')) (var_name c))"
        "is_accessor (info ctx2) c t' (map_of (names (info ctx')) (lower (var_name c)))"
      by blast
    have "erase_names (info ctx2) = erase_names (info ctx)" using e1 e2 by simp
    from h same_class_shapes [OF this] show ?thesis by simp
  qed
qed

section \<open>The type variable and the \<^verbatim>\<open>match\<close> method\<close>

text \<open>
  \<open>match_result_type ti\<close> is the \<^verbatim>\<open>TypeVarDef\<close> that \<^verbatim>\<open>_add_typevar\<close> returns for the
  class \<open>ti\<close>. \<open>first_occurrences\<close> lists the keys of a dictionary built by inserting
  the elements of a list in order: each element once, at the place of its first
  occurrence.
\<close>

definition match_result_type :: "type_info \<Rightarrow> tvar_def" where
  "match_result_type ti =
     TypeVarDef ''_MatchResult'' (fullname ti @ ''._MatchResult'') (- 1) []
       (named_type ''__builtins__.object'')"

fun first_occurrences :: "'a list \<Rightarrow> 'a list" where
  "first_occurrences [] = []"
| "first_occurrences (x # xs) = x # removeAll x (first_occurrences xs)"

lemma set_first_occurrences: "set (first_occurrences xs) = set xs"
  by (induction xs) auto

lemma distinct_first_occurrences: "distinct (first_occurrences xs)"
  by (induction xs) (auto simp: distinct_removeAll)

lemma first_occurrences_distinct: "distinct xs \<Longrightarrow> first_occurrences xs = xs"
  by (induction xs) (auto simp: set_first_occurrences)

lemma update_keyed:
  "AList.update x (g x) (map (\<lambda>c. (c, g c)) ks) =
     (if x \<in> set ks then map (\<lambda>c. (c, g c)) ks else map (\<lambda>c. (c, g c)) (ks @ [x]))"
  by (induction ks) auto

lemma foldl_update_keyed:
  "foldl (\<lambda>d c. AList.update c (g c) d) (map (\<lambda>c. (c, g c)) ks) xs =
     map (\<lambda>c. (c, g c)) (ks @ filter (\<lambda>y. y \<notin> set ks) (first_occurrences xs))"
proof (induction xs arbitrary: ks)
  case Nil
  show ?case by simp
next
  case (Cons x xs)
  show ?case
  proof (cases "x \<in> set ks")
    case True
    then have "filter (\<lambda>y. y \<notin> set ks) (removeAll x (first_occurrences xs)) =
        filter (\<lambda>y. y \<notin> set ks) (first_occurrences xs)"
      by (auto simp: removeAll_filter_not_eq intro: filter_cong)
    with True Cons.IH [of ks] show ?thesis by (simp add: update_keyed)
  next
    case False
    have "filter (\<lambda>y. y \<notin> set (ks @ [x])) (first_occurrences xs) =
        filter (\<lambda>y. y \<notin> set ks) (removeAll x (first_occurrences xs))"
      by (auto simp: removeAll_filter_not_eq intro: filter_cong)
    with False Cons.IH [of "ks @ [x]"] show ?thesis by (simp add: update_keyed)
  qed
qed

lemma caseCallables_first_occurrences:
  "caseCallables cases R =
     map (\<lambda>c. (c, callable_type_for_adt_case c R)) (first_occurrences cases)"
  using foldl_update_keyed [of "\<lambda>c. callable_type_for_adt_case c R" "[]" cases]
  by (simp add: caseCallables_def)

lemma matchArgs_first_occurrences:
  "matchArgs cases R =
     map (\<lambda>c. \<lparr>variable = \<lparr>var_name = lower (var_name c),
                              var_type = Some (callable_type_for_adt_case c R)\<rparr>,
                type_annotation = Some (callable_type_for_adt_case c R),
                initializer = None, kind = ARG_NAMED\<rparr>) (first_occurrences cases)"
  by (simp add: matchArgs_def caseCallables_first_occurrences match_arg_def)

lemma matchArgs_typed: "list_all (\<lambda>a. type_annotation a \<noteq> None) (matchArgs cases R)"
  by (simp add: matchArgs_first_occurrences list_all_iff)

lemma add_typevar_facts:
  assumes "add_typevar ctx ''_MatchResult'' = (ctx', R)"
  shows "R = match_result_type (info ctx)"
    and "erase_names (info ctx') = erase_names (info ctx)"
    and "body ctx' = body ctx"
    and "map_of (names (info ctx')) =
      (map_of (names (info ctx)))(''_MatchResult'' \<mapsto>
        \<lparr>sym_kind = MDEF,
         node = TypeVarExprNode \<lparr>tve_name = ''_MatchResult'',
           tve_fullname = fullname (info ctx) @ ''._MatchResult'', tve_values = [],
           tve_upper_bound = named_type ''__builtins__.object''\<rparr>,
         plugin_generated = False\<rparr>)"
  using assms
  by (auto simp: add_typevar_def Let_def match_result_type_def erase_names_def update_conv')

lemma add_typevar_not_stale:
  assumes "add_typevar ctx ''_MatchResult'' = (ctx', R)" and "\<not> stale ctx k"
  shows "\<not> stale ctx' k"
  using assms(2) add_typevar_facts(4) [OF assms(1)]
  by (simp add: stale_def split: option.splits)

lemma add_case_methods_typed:
  "add_case_methods ctx it cases = (None, ctx') \<Longrightarrow> list_all (\<lambda>c. var_type c \<noteq> None) cases"
proof (induction cases arbitrary: ctx)
  case Nil
  show ?case by simp
next
  case (Cons c cases)
  from add_case_methods_Cons [OF Cons.prems] obtain t ctx2 where
    "var_type c = Some t" "add_case_methods ctx2 it cases = (None, ctx')"
    by auto
  with Cons.IH show ?case by simp
qed

lemma match_result_type_erase:
  assumes "erase_names ti = erase_names ti'"
  shows "match_result_type ti = match_result_type ti'"
proof -
  from assms have "fullname (erase_names ti) = fullname (erase_names ti')" by simp
  then have "fullname ti = fullname ti'" by (simp add: erase_names_def)
  then show ?thesis by (simp add: match_result_type_def)
qed

lemma first_argument_erase:
  assumes "erase_names ti = erase_names ti'"
  shows "first_argument ti st ic = first_argument ti' st ic"
proof -
  have f: "fill_typevars ti = fill_typevars ti'"
    using assms fill_typevars_erase by metis
  show ?thesis unfolding first_argument_def f ..
qed

lemma transform_cases_None:
  assumes "transform_cases ctx it cases = (None, ctx')"
  obtains ctx1 ctx2 where
    "add_case_methods ctx it cases = (None, ctx1)"
    "add_typevar ctx1 ''_MatchResult'' = (ctx2, match_result_type (info ctx))"
    "add_method ctx2 ''match'' (matchArgs cases (match_result_type (info ctx)))
       (TypeVarType (match_result_type (info ctx))) None (Some (match_result_type (info ctx)))
       False = (None, ctx')"
    "erase_names (info ctx2) = erase_names (info ctx)"
proof -
  from assms obtain ctx1 where l: "add_case_methods ctx it cases = (None, ctx1)"
    by (auto simp: transform_cases_def split: prod.splits option.splits)
  obtain ctx2 R where tv: "add_typevar ctx1 ''_MatchResult'' = (ctx2, R)" by force
  note e1 = add_case_methods_frame [OF l]
  from add_typevar_facts(2) [OF tv] e1
  have e2: "erase_names (info ctx2) = erase_names (info ctx)" by (rule trans)
  from add_typevar_facts(1) [OF tv] match_result_type_erase [OF e1]
  have R: "R = match_result_type (info ctx)" by (rule trans)
  from assms l tv R have m: "add_method ctx2 ''match'' (matchArgs cases (match_result_type (info ctx)))
       (TypeVarType (match_result_type (info ctx))) None (Some (match_result_type (info ctx)))
       False = (None, ctx')"
    by (simp add: transform_cases_def)
  from tv R have tv': "add_typevar ctx1 ''_MatchResult'' = (ctx2, match_result_type (info ctx))"
    by simp
  from l tv' m e2 show thesis by (rule that)
qed

text \<open>The argument \<^verbatim>\<open>self\<close> of an instance method of the class.\<close>

definition self_argument :: "type_info \<Rightarrow> argument" where
  "self_argument ti =
     \<lparr>variable = \<lparr>var_name = ''self'', var_type = None\<rparr>,
      type_annotation = Some (fill_typevars ti), initializer = None, kind = ARG_POS\<rparr>"

lemma transform_cases_match:
  assumes "transform_cases ctx it cases = (None, ctx')"
  shows "\<exists>f. map_of (names (info ctx')) ''match'' =
        Some \<lparr>sym_kind = MDEF, node = FuncDefNode f, plugin_generated = True\<rparr> \<and>
      fd_name f = ''match'' \<and> \<not> is_class f \<and>
      arguments f = self_argument (info ctx) # matchArgs cases (match_result_type (info ctx)) \<and>
      fd_type f = Some (set_callable_name
        (CallableType
           (fill_typevars (info ctx) #
              map (\<lambda>c. callable_type_for_adt_case c (match_result_type (info ctx)))
                (first_occurrences cases))
           (ARG_POS # map (\<lambda>c. ARG_NAMED) (first_occurrences cases))
           (Some ''self'' # map (\<lambda>c. Some (lower (var_name c))) (first_occurrences cases))
           (TypeVarType (match_result_type (info ctx))) (named_type ''__builtins__.function'')
           [match_result_type (info ctx)] None) ''match'' (info ctx))"
proof -
  let ?R = "match_result_type (info ctx)"
  from assms obtain ctx1 ctx2 where
    m: "add_method ctx2 ''match'' (matchArgs cases ?R) (TypeVarType ?R) None (Some ?R) False
          = (None, ctx')"
    and e: "erase_names (info ctx2) = erase_names (info ctx)"
    by (rule transform_cases_None)
  have fa: "first_argument (info ctx2) None False = self_argument (info ctx)"
    using first_argument_erase [OF e, of None False]
    by (simp add: first_argument_def self_argument_def)
  have sc: "set_callable_name sig n (info ctx2) = set_callable_name sig n (info ctx)" for sig n
    using e set_callable_name_erase by metis
  from m obtain f ts where
    h: "map Some ts = map type_annotation (first_argument (info ctx2) None False # matchArgs cases ?R)"
      "fd_name f = ''match''" "is_class f = False"
      "arguments f = first_argument (info ctx2) None False # matchArgs cases ?R"
      "fd_type f = Some (set_callable_name
        (CallableType ts (map kind (first_argument (info ctx2) None False # matchArgs cases ?R))
           (map (\<lambda>a. Some (var_name (variable a)))
              (first_argument (info ctx2) None False # matchArgs cases ?R))
           (TypeVarType ?R) (named_type ''__builtins__.function'')
           (case Some ?R of Some t \<Rightarrow> [t] | None \<Rightarrow> []) None) ''match'' (info ctx2))"
      "map_of (names (info ctx')) = names_after_install (info ctx2) ''match'' f"
    by (rule add_method_NoneE)
  have "map Some ts = map Some (fill_typevars (info ctx) #
      map (\<lambda>c. callable_type_for_adt_case c ?R) (first_occurrences cases))"
    using h(1) by (simp add: fa self_argument_def matchArgs_first_occurrences comp_def)
  then have ts: "ts = fill_typevars (info ctx) #
      map (\<lambda>c. callable_type_for_adt_case c ?R) (first_occurrences cases)"
    by (simp only: inj_map_eq_map [OF inj_Some])
  have 1: "map_of (names (info ctx')) ''match'' =
      Some \<lparr>sym_kind = MDEF, node = FuncDefNode f, plugin_generated = True\<rparr>"
    using h(6) by (simp add: names_after_install_def)
  have 5: "fd_type f = Some (set_callable_name
        (CallableType
           (fill_typevars (info ctx) #
              map (\<lambda>c. callable_type_for_adt_case c ?R) (first_occurrences cases))
           (ARG_POS # map (\<lambda>c. ARG_NAMED) (first_occurrences cases))
           (Some ''self'' # map (\<lambda>c. Some (lower (var_name c))) (first_occurrences cases))
           (TypeVarType ?R) (named_type ''__builtins__.function'') [?R] None)
        ''match'' (info ctx))"
    using h(5) unfolding ts fa sc
    by (simp add: self_argument_def matchArgs_first_occurrences comp_def)
  from 1 h(2,3,4) 5 fa show ?thesis by auto
qed

lemma transform_class_None:
  assumes "transform_class ctx = (None, ctx')"
  obtains cases where "get_class_vars ctx = Inr cases"
    "is_Instance (fill_typevars (info ctx))"
    "transform_cases ctx (fill_typevars (info ctx)) cases = (None, ctx')"
proof -
  from assms have i: "is_Instance (fill_typevars (info ctx))"
    by (auto simp: transform_class_def Let_def split: if_splits)
  with assms obtain cases where c: "get_class_vars ctx = Inr cases"
    by (cases "get_class_vars ctx") (auto simp: transform_class_def Let_def)
  with assms i have "transform_cases ctx (fill_typevars (info ctx)) cases = (None, ctx')"
    by (simp add: transform_class_def Let_def)
  with c i show thesis by (rule that)
qed

section \<open>Example classes\<close>

text \<open>
  \<open>class_of n ds\<close> is the context of a class \<^verbatim>\<open>shapes.<n>\<close> as the host hands it to the
  plugin on the first pass: one annotated assignment and one \<^verbatim>\<open>Var\<close> symbol per declared
  attribute of \<open>ds\<close>, no base class tables, no type variables.
\<close>

definition int_type :: mtype where
  "int_type = Instance ''builtins.int'' []"

definition str_type :: mtype where
  "str_type = Instance ''builtins.str'' []"

definition declared :: "string \<times> mtype option \<Rightarrow> string \<times> symbol_table_node" where
  "declared d =
     (fst d, \<lparr>sym_kind = MDEF, node = VarNode \<lparr>var_name = fst d, var_type = snd d\<rparr>,
              plugin_generated = False\<rparr>)"

definition class_of :: "string \<Rightarrow> (string \<times> mtype option) list \<Rightarrow> class_def_context" where
  "class_of n ds =
     \<lparr>body = map (\<lambda>d. AssignmentStmt [NameExpr (fst d)]) ds,
      info = \<lparr>fullname = ''shapes.'' @ n, info_name = n, line = 1,
               names = map declared ds, mro_tail = [], type_vars = [], tuple_type = None\<rparr>,
      next_oid = 0\<rparr>"

section \<open>The \<^verbatim>\<open>match\<close> method\<close>

text \<open>
  Two example classes: \<^verbatim>\<open>Shape\<close> declares \<^verbatim>\<open>A: int\<close> and \<^verbatim>\<open>B: str\<close>; \<^verbatim>\<open>Other\<close>
  declares \<^verbatim>\<open>A: int\<close>.
\<close>

definition shape_class :: class_def_context where
  "shape_class = class_of ''Shape'' [(''A'', Some int_type), (''B'', Some str_type)]"

definition shape_cases :: "var list" where
  "shape_cases = [\<lparr>var_name = ''A'', var_type = Some int_type\<rparr>,
                  \<lparr>var_name = ''B'', var_type = Some str_type\<rparr>]"

definition other_class :: class_def_context where
  "other_class = class_of ''Other'' [(''A'', Some int_type)]"

lemma shape_class_transformed: "fst (transform_class shape_class) = None"
  by code_simp

lemma shape_class_vars: "get_class_vars shape_class = Inr shape_cases"
  by code_simp

lemma other_class_transformed: "fst (transform_class other_class) = None"
  by code_simp

text \<open>
  The \<^verbatim>\<open>match\<close> method for the cases that \<^verbatim>\<open>_get_class_vars\<close> returns. When the
  transformation of a class completes, the class's \<^verbatim>\<open>match\<close> entry is a plugin-generated
  instance method (its first argument is \<^verbatim>\<open>self\<close>) that is generic over the one type
  variable \<open>R\<close>, named \<^verbatim>\<open>_MatchResult\<close> and qualified by the class's name; after
  \<^verbatim>\<open>self\<close> it has one argument per case found, in order (a case found several times
  counts once, at its first occurrence), named as the case in lower case, of kind
  \<^verbatim>\<open>ARG_NAMED\<close>, with no initializer, and typed as a callable from the case's declared
  type to \<open>R\<close>; and it returns \<open>R\<close>.
\<close>

theorem match_signature:
  assumes "transform_class ctx = (None, ctx')" and "get_class_vars ctx = Inr cases"
  shows "\<exists>f R. R = TypeVarDef ''_MatchResult'' (fullname (info ctx) @ ''._MatchResult'') (- 1) []
                    (named_type ''__builtins__.object'') \<and>
      map_of (names (info ctx')) ''match'' =
        Some \<lparr>sym_kind = MDEF, node = FuncDefNode f, plugin_generated = True\<rparr> \<and>
      fd_name f = ''match'' \<and> \<not> is_class f \<and>
      arguments f =
        \<lparr>variable = \<lparr>var_name = ''self'', var_type = None\<rparr>,
         type_annotation = Some (fill_typevars (info ctx)), initializer = None,
         kind = ARG_POS\<rparr> #
        map (\<lambda>c. \<lparr>variable = \<lparr>var_name = lower (var_name c),
                                 var_type = Some (callable_type_for_adt_case c R)\<rparr>,
                   type_annotation = Some (callable_type_for_adt_case c R),
                   initializer = None, kind = ARG_NAMED\<rparr>) (first_occurrences cases) \<and>
      fd_type f = Some (set_callable_name
        (CallableType
           (fill_typevars (info ctx) #
              map (\<lambda>c. callable_type_for_adt_case c R) (first_occurrences cases))
           (ARG_POS # map (\<lambda>c. ARG_NAMED) (first_occurrences cases))
           (Some ''self'' # map (\<lambda>c. Some (lower (var_name c))) (first_occurrences cases))
           (TypeVarType R) (named_type ''__builtins__.function'') [R] None)
        ''match'' (info ctx)) \<and>
      list_all (\<lambda>c. \<exists>t. var_type c = Some t \<and>
          callable_type_for_adt_case c R =
            CallableType [t] [ARG_POS] [None] (TypeVarType R)
              (named_type ''__builtins__.function'') [R] None) cases \<and>
      set (first_occurrences cases) = set cases \<and> distinct (first_occurrences cases) \<and>
      (distinct cases \<longrightarrow> first_occurrences cases = cases)"
proof -
  let ?R = "match_result_type (info ctx)"
  from assms(1) obtain cases' where "get_class_vars ctx = Inr cases'"
    and t: "transform_cases ctx (fill_typevars (info ctx)) cases' = (None, ctx')"
    by (rule transform_class_None)
  with assms(2) have t: "transform_cases ctx (fill_typevars (info ctx)) cases = (None, ctx')"
    by simp
  from transform_cases_match [OF t] obtain f where
    f: "map_of (names (info ctx')) ''match'' =
        Some \<lparr>sym_kind = MDEF, node = FuncDefNode f, plugin_generated = True\<rparr>"
      "fd_name f = ''match''" "\<not> is_class f"
      "arguments f = self_argument (info ctx) # matchArgs cases ?R"
      "fd_type f = Some (set_callable_name
        (CallableType
           (fill_typevars (info ctx) #
              map (\<lambda>c. callable_type_for_adt_case c ?R) (first_occurrences cases))
           (ARG_POS # map (\<lambda>c. ARG_NAMED) (first_occurrences cases))
           (Some ''self'' # map (\<lambda>c. Some (lower (var_name c))) (first_occurrences cases))
           (TypeVarType ?R) (named_type ''__builtins__.function'') [?R] None)
        ''match'' (info ctx))"
    by blast
  from t obtain ctx1 where "add_case_methods ctx (fill_typevars (info ctx)) cases = (None, ctx1)"
    by (rule transform_cases_None)
  from add_case_methods_typed [OF this]
  have typed: "list_all (\<lambda>c. \<exists>t. var_type c = Some t \<and>
          callable_type_for_adt_case c ?R =
            CallableType [t] [ARG_POS] [None] (TypeVarType ?R)
              (named_type ''__builtins__.function'') [?R] None) cases"
    by (auto simp: list_all_iff callable_type_for_adt_case_def)
  have R: "?R = TypeVarDef ''_MatchResult'' (fullname (info ctx) @ ''._MatchResult'') (- 1) []
                    (named_type ''__builtins__.object'')"
    by (simp add: match_result_type_def)
  have a: "arguments f =
        \<lparr>variable = \<lparr>var_name = ''self'', var_type = None\<rparr>,
         type_annotation = Some (fill_typevars (info ctx)), initializer = None,
         kind = ARG_POS\<rparr> #
        map (\<lambda>c. \<lparr>variable = \<lparr>var_name = lower (var_name c),
                                 var_type = Some (callable_type_for_adt_case c ?R)\<rparr>,
                   type_annotation = Some (callable_type_for_adt_case c ?R),
                   initializer = None, kind = ARG_NAMED\<rparr>) (first_occurrences cases)"
    using f(4) by (simp add: self_argument_def matchArgs_first_occurrences)
  show ?thesis
    apply (rule exI [of _ f], rule exI [of _ ?R])
    using R f(1,2,3,5) a typed set_first_occurrences [of cases]
      distinct_first_occurrences [of cases] first_occurrences_distinct [of cases]
    by (intro conjI impI) assumption+
qed

theorem match_signature_witness:
  "transform_class shape_class = (None, snd (transform_class shape_class)) \<and>
   get_class_vars shape_class = Inr shape_cases \<and>
   (\<exists>f. map_of (names (info (snd (transform_class shape_class)))) ''match'' =
          Some \<lparr>sym_kind = MDEF, node = FuncDefNode f, plugin_generated = True\<rparr> \<and>
        \<not> is_class f \<and>
        map (\<lambda>a. var_name (variable a)) (arguments f) = [''self'', ''a'', ''b''] \<and>
        map kind (arguments f) = [ARG_POS, ARG_NAMED, ARG_NAMED])"
proof -
  have 1: "transform_class shape_class = (None, snd (transform_class shape_class))"
    using shape_class_transformed by (metis prod.collapse)
  have fo: "first_occurrences shape_cases = shape_cases"
    by (rule first_occurrences_distinct) (simp add: shape_cases_def)
  have lo: "map (\<lambda>c. lower (var_name c)) shape_cases = [''a'', ''b'']"
    by code_simp
  have "\<exists>f. map_of (names (info (snd (transform_class shape_class)))) ''match'' =
          Some \<lparr>sym_kind = MDEF, node = FuncDefNode f, plugin_generated = True\<rparr> \<and>
        \<not> is_class f \<and>
        map (\<lambda>a. var_name (variable a)) (arguments f) = [''self'', ''a'', ''b''] \<and>
        map kind (arguments f) = [ARG_POS, ARG_NAMED, ARG_NAMED]"
    using match_signature [OF 1 shape_class_vars]
    apply (elim exE conjE)
    apply (rule_tac x = f in exI)
    apply (simp only: fo)
    apply (simp add: comp_def lo)
    apply (simp add: shape_cases_def)
    done
  with 1 shape_class_vars show ?thesis by (intro conjI)
qed

lemma transform_class_match_variables:
  assumes "transform_class ctx = (None, ctx')"
  shows "\<exists>f sig. map_of (names (info ctx')) ''match'' =
        Some \<lparr>sym_kind = MDEF, node = FuncDefNode f, plugin_generated = True\<rparr> \<and>
      fd_type f = Some sig \<and> variables sig = [match_result_type (info ctx)] \<and>
      ret_type sig = TypeVarType (match_result_type (info ctx))"
proof -
  from assms obtain cases where
    "transform_cases ctx (fill_typevars (info ctx)) cases = (None, ctx')"
    by (rule transform_class_None)
  from transform_cases_match [OF this] obtain f sig where
    "map_of (names (info ctx')) ''match'' =
        Some \<lparr>sym_kind = MDEF, node = FuncDefNode f, plugin_generated = True\<rparr>"
    "fd_type f = Some (set_callable_name sig ''match'' (info ctx))"
    "sig = CallableType
           (fill_typevars (info ctx) #
              map (\<lambda>c. callable_type_for_adt_case c (match_result_type (info ctx)))
                (first_occurrences cases))
           (ARG_POS # map (\<lambda>c. ARG_NAMED) (first_occurrences cases))
           (Some ''self'' # map (\<lambda>c. Some (lower (var_name c))) (first_occurrences cases))
           (TypeVarType (match_result_type (info ctx))) (named_type ''__builtins__.function'')
           [match_result_type (info ctx)] None"
    by blast
  then show ?thesis by simp
qed

text \<open>
  Claim C9. For two classes with distinct fully qualified names whose transformations
  complete, the type variables of the two generated \<^verbatim>\<open>match\<close> methods are both named
  \<^verbatim>\<open>_MatchResult\<close>, each has the fully qualified name built from its own class's
  qualified name, and the two fully qualified names differ.
\<close>

theorem match_type_variables_distinct:
  assumes "transform_class ctx1 = (None, ctx1')" and "transform_class ctx2 = (None, ctx2')"
    and "fullname (info ctx1) \<noteq> fullname (info ctx2)"
  shows "\<exists>f1 f2 sig1 sig2 R1 R2.
      map_of (names (info ctx1')) ''match'' =
        Some \<lparr>sym_kind = MDEF, node = FuncDefNode f1, plugin_generated = True\<rparr> \<and>
      fd_type f1 = Some sig1 \<and> variables sig1 = [R1] \<and> ret_type sig1 = TypeVarType R1 \<and>
      map_of (names (info ctx2')) ''match'' =
        Some \<lparr>sym_kind = MDEF, node = FuncDefNode f2, plugin_generated = True\<rparr> \<and>
      fd_type f2 = Some sig2 \<and> variables sig2 = [R2] \<and> ret_type sig2 = TypeVarType R2 \<and>
      tv_name R1 = ''_MatchResult'' \<and> tv_name R2 = ''_MatchResult'' \<and>
      tv_fullname R1 = fullname (info ctx1) @ ''._MatchResult'' \<and>
      tv_fullname R2 = fullname (info ctx2) @ ''._MatchResult'' \<and>
      tv_fullname R1 \<noteq> tv_fullname R2"
proof -
  from transform_class_match_variables [OF assms(1)] obtain f1 sig1 where
    1: "map_of (names (info ctx1')) ''match'' =
        Some \<lparr>sym_kind = MDEF, node = FuncDefNode f1, plugin_generated = True\<rparr>"
      "fd_type f1 = Some sig1" "variables sig1 = [match_result_type (info ctx1)]"
      "ret_type sig1 = TypeVarType (match_result_type (info ctx1))"
    by blast
  from transform_class_match_variables [OF assms(2)] obtain f2 sig2 where
    2: "map_of (names (info ctx2')) ''match'' =
        Some \<lparr>sym_kind = MDEF, node = FuncDefNode f2, plugin_generated = True\<rparr>"
      "fd_type f2 = Some sig2" "variables sig2 = [match_result_type (info ctx2)]"
      "ret_type sig2 = TypeVarType (match_result_type (info ctx2))"
    by blast
  have 3: "tv_name (match_result_type (info ctx1)) = ''_MatchResult''"
    "tv_name (match_result_type (info ctx2)) = ''_MatchResult''"
    "tv_fullname (match_result_type (info ctx1)) = fullname (info ctx1) @ ''._MatchResult''"
    "tv_fullname (match_result_type (info ctx2)) = fullname (info ctx2) @ ''._MatchResult''"
    by (simp_all add: match_result_type_def)
  from assms(3) have 4: "tv_fullname (match_result_type (info ctx1)) \<noteq>
      tv_fullname (match_result_type (info ctx2))"
    by (simp add: match_result_type_def)
  from 1 2 3 4 show ?thesis by blast
qed

theorem match_type_variables_distinct_witness:
  "transform_class shape_class = (None, snd (transform_class shape_class)) \<and>
   transform_class other_class = (None, snd (transform_class other_class)) \<and>
   fullname (info shape_class) \<noteq> fullname (info other_class) \<and>
   (\<exists>f1 f2 sig1 sig2.
      map_of (names (info (snd (transform_class shape_class)))) ''match'' =
        Some \<lparr>sym_kind = MDEF, node = FuncDefNode f1, plugin_generated = True\<rparr> \<and>
      fd_type f1 = Some sig1 \<and>
      map_of (names (info (snd (transform_class other_class)))) ''match'' =
        Some \<lparr>sym_kind = MDEF, node = FuncDefNode f2, plugin_generated = True\<rparr> \<and>
      fd_type f2 = Some sig2 \<and>
      map tv_name (variables sig1) = map tv_name (variables sig2) \<and>
      map tv_fullname (variables sig1) \<noteq> map tv_fullname (variables sig2))"
proof -
  have 1: "transform_class shape_class = (None, snd (transform_class shape_class))"
    using shape_class_transformed by (metis prod.collapse)
  have 2: "transform_class other_class = (None, snd (transform_class other_class))"
    using other_class_transformed by (metis prod.collapse)
  have 3: "fullname (info shape_class) \<noteq> fullname (info other_class)"
    by (simp add: shape_class_def other_class_def class_of_def)
  have "\<exists>f1 f2 sig1 sig2.
      map_of (names (info (snd (transform_class shape_class)))) ''match'' =
        Some \<lparr>sym_kind = MDEF, node = FuncDefNode f1, plugin_generated = True\<rparr> \<and>
      fd_type f1 = Some sig1 \<and>
      map_of (names (info (snd (transform_class other_class)))) ''match'' =
        Some \<lparr>sym_kind = MDEF, node = FuncDefNode f2, plugin_generated = True\<rparr> \<and>
      fd_type f2 = Some sig2 \<and>
      map tv_name (variables sig1) = map tv_name (variables sig2) \<and>
      map tv_fullname (variables sig1) \<noteq> map tv_fullname (variables sig2)"
    using match_type_variables_distinct [OF 1 2 3]
    apply (elim exE conjE)
    apply (rule_tac x = f1 in exI, rule_tac x = f2 in exI)
    apply (rule_tac x = sig1 in exI, rule_tac x = sig2 in exI)
    apply (simp (no_asm_simp) add: 3)
    done
  with 1 2 3 show ?thesis by (intro conjI)
qed

section \<open>A second pass over a class\<close>

text \<open>
  \<open>method_argument_names ctx n\<close>: the argument names of the function definition that the
  class's symbol table holds under \<open>n\<close>. \<open>shape_pass1\<close> and \<open>shape_pass2\<close> are the class
  \<^verbatim>\<open>Shape\<close> after one and after two runs of the transformation, the context of each run
  being the one the run before left.
\<close>

definition method_argument_names :: "class_def_context \<Rightarrow> string \<Rightarrow> string list option" where
  "method_argument_names ctx n =
     (case map_of (names (info ctx)) n of
        None \<Rightarrow> None
      | Some s \<Rightarrow>
          (case node s of
             FuncDefNode f \<Rightarrow> Some (map (\<lambda>a. var_name (variable a)) (arguments f))
           | _ \<Rightarrow> None))"

definition shape_pass1 :: class_def_context where
  "shape_pass1 = snd (transform_class shape_class)"

definition shape_pass2 :: class_def_context where
  "shape_pass2 = snd (transform_class shape_pass1)"

text \<open>
  Claim C4 (a defect of the code). The claim asks, for every decorated class, for one
  \<^verbatim>\<open>match\<close> parameter per declared variant. The first run over \<^verbatim>\<open>Shape\<close> gives that:
  \<^verbatim>\<open>match(self, *, a, b)\<close>. The run has put the generated constructors under the names
  \<^verbatim>\<open>A\<close> and \<^verbatim>\<open>B\<close>, so on the next run, which the first step of \<^verbatim>\<open>_add_method\<close> is
  written for, \<^verbatim>\<open>_get_class_vars\<close> finds no \<^verbatim>\<open>Var\<close> under the names the class body
  still declares: it returns no case, the run completes, and \<^verbatim>\<open>match\<close> is regenerated
  with \<^verbatim>\<open>self\<close> as its only argument.
\<close>

theorem match_after_second_pass:
  "assigned_names (body shape_class) = [''A'', ''B''] \<and>
   get_class_vars shape_class = Inr shape_cases \<and>
   fst (transform_class shape_class) = None \<and>
   method_argument_names shape_pass1 ''match'' = Some [''self'', ''a'', ''b''] \<and>
   assigned_names (body shape_pass1) = [''A'', ''B''] \<and>
   get_class_vars shape_pass1 = Inr [] \<and>
   fst (transform_class shape_pass1) = None \<and>
   method_argument_names shape_pass2 ''match'' = Some [''self'']"
proof (intro conjI)
  show "assigned_names (body shape_class) = [''A'', ''B'']" by code_simp
  show "get_class_vars shape_class = Inr shape_cases" by code_simp
  show "fst (transform_class shape_class) = None" by code_simp
  show "method_argument_names shape_pass1 ''match'' = Some [''self'', ''a'', ''b'']" by code_simp
  show "assigned_names (body shape_pass1) = [''A'', ''B'']" by code_simp
  show "get_class_vars shape_pass1 = Inr []" by code_simp
  show "fst (transform_class shape_pass1) = None" by code_simp
  show "method_argument_names shape_pass2 ''match'' = Some [''self'']" by code_simp
qed

text \<open>
  \<open>other_pass1\<close> and \<open>other_pass2\<close> are the class \<^verbatim>\<open>Other\<close>, which declares \<^verbatim>\<open>A: int\<close>,
  after one and after two runs of the transformation. \<open>other_again\<close> is the second run
  when it is handed the same list of cases as the first run: the rest of
  \<^verbatim>\<open>_transform_class\<close> after \<^verbatim>\<open>cases\<close> has been computed, on the context the first run
  left.
\<close>

definition other_pass1 :: class_def_context where
  "other_pass1 = snd (transform_class other_class)"

definition other_pass2 :: class_def_context where
  "other_pass2 = snd (transform_class other_pass1)"

definition other_again :: "error option \<times> class_def_context" where
  "other_again =
     transform_cases other_pass1 (fill_typevars (info other_pass1))
       [\<lparr>var_name = ''A'', var_type = Some int_type\<rparr>]"

text \<open>
  Claim C1 (a defect of the code). The claim asks that a second run leaves the class's
  symbol table as the first run left it, with the first run's generated symbols discarded
  and no renamed slots piling up. The first step of \<^verbatim>\<open>_add_method\<close> removes a previously
  generated method from the class body only; its symbol stays in the table, and the
  renaming step then keeps it under a fresh redefinition name. After the second run over
  \<^verbatim>\<open>Other\<close> the table has the new key \<^verbatim>\<open>match-redefinition\<close>, which holds a
  plugin-generated method (the \<^verbatim>\<open>match\<close> of the first run); when the second run is
  given the same cases as the first, each of the three generated methods of the first run
  is kept under a new key.
\<close>

theorem second_pass_accumulates:
  "fst (transform_class other_class) = None \<and>
   map fst (names (info other_pass1)) =
     [''A'', ''A-redefinition'', ''a'', ''_MatchResult'', ''match''] \<and>
   fst (transform_class other_pass1) = None \<and>
   map fst (names (info other_pass2)) =
     [''A'', ''A-redefinition'', ''a'', ''_MatchResult'', ''match'', ''match-redefinition''] \<and>
   stale other_pass2 ''match-redefinition'' \<and>
   fst other_again = None \<and>
   map fst (names (info (snd other_again))) =
     [''A'', ''A-redefinition'', ''a'', ''_MatchResult'', ''match'', ''A-redefinition2'',
      ''a-redefinition'', ''match-redefinition''] \<and>
   stale (snd other_again) ''A-redefinition2'' \<and>
   stale (snd other_again) ''a-redefinition''"
proof (intro conjI)
  show "fst (transform_class other_class) = None" by code_simp
  show "map fst (names (info other_pass1)) =
     [''A'', ''A-redefinition'', ''a'', ''_MatchResult'', ''match'']" by code_simp
  show "fst (transform_class other_pass1) = None" by code_simp
  show "map fst (names (info other_pass2)) =
     [''A'', ''A-redefinition'', ''a'', ''_MatchResult'', ''match'', ''match-redefinition'']"
    by code_simp
  show "stale other_pass2 ''match-redefinition''" by code_simp
  show "fst other_again = None" by code_simp
  show "map fst (names (info (snd other_again))) =
     [''A'', ''A-redefinition'', ''a'', ''_MatchResult'', ''match'', ''A-redefinition2'',
      ''a-redefinition'', ''match-redefinition'']" by code_simp
  show "stale (snd other_again) ''A-redefinition2''" by code_simp
  show "stale (snd other_again) ''a-redefinition''" by code_simp
qed

section \<open>A case without a type\<close>

text \<open>
  The loop over a list of cases with an untyped case \<open>u\<close> in it: it runs over the cases
  before \<open>u\<close> and, when they raise nothing, raises the assertion of \<open>u\<close> in the state they
  left.
\<close>

definition untyped_error :: error where
  "untyped_error = AssertionError ''Untyped cases are not currently supported in adt.mypy_plugin''"

definition partly_typed_class :: class_def_context where
  "partly_typed_class = class_of ''Partly'' [(''A'', Some int_type), (''B'', None)]"

lemma add_case_methods_append:
  "add_case_methods ctx it (pre @ rest) =
     (if fst (add_case_methods ctx it pre) = None
      then add_case_methods (snd (add_case_methods ctx it pre)) it rest
      else add_case_methods ctx it pre)"
proof (induction pre arbitrary: ctx)
  case Nil
  show ?case by simp
next
  case (Cons c pre)
  show ?case
    by (simp add: Cons.IH split: option.splits prod.splits)
qed

lemma add_case_methods_untyped:
  assumes "var_type u = None"
  shows "fst (add_case_methods ctx it (pre @ u # post)) \<noteq> None"
    and "snd (add_case_methods ctx it (pre @ u # post)) = snd (add_case_methods ctx it pre)"
    and "fst (add_case_methods ctx it pre) = None \<Longrightarrow>
      fst (add_case_methods ctx it (pre @ u # post)) = Some untyped_error"
  using assms by (simp_all add: add_case_methods_append untyped_error_def)

text \<open>
  Claim C2, as stated, fails: the assertion that a case is typed stands inside the loop,
  after the constructors and accessors of the earlier cases have been installed. For the
  class \<^verbatim>\<open>Partly\<close>, which declares \<^verbatim>\<open>A: int\<close> and then \<^verbatim>\<open>B\<close> without a type, the
  transformation raises the assertion and leaves the symbol table with the keys
  \<^verbatim>\<open>A-redefinition\<close> and \<^verbatim>\<open>a\<close> added.
\<close>

theorem untyped_case_partial_install:
  "fst (transform_class partly_typed_class) = Some untyped_error \<and>
   map fst (names (info partly_typed_class)) = [''A'', ''B''] \<and>
   map fst (names (info (snd (transform_class partly_typed_class)))) =
     [''A'', ''B'', ''A-redefinition'', ''a'']"
proof (intro conjI)
  show "fst (transform_class partly_typed_class) = Some untyped_error" by code_simp
  show "map fst (names (info partly_typed_class)) = [''A'', ''B'']" by code_simp
  show "map fst (names (info (snd (transform_class partly_typed_class)))) =
     [''A'', ''B'', ''A-redefinition'', ''a'']" by code_simp
qed

text \<open>
  Claim C2, amended. For a class that is not a tuple type and whose cases are
  \<open>pre @ u # post\<close> with \<open>u\<close> untyped, the transformation aborts, and it leaves the class
  in the state that the loop over the cases \<open>pre\<close> before \<open>u\<close> leaves: nothing is installed
  for \<open>u\<close> or for a case after it, and neither the type variable nor \<^verbatim>\<open>match\<close> is
  installed. When the cases before \<open>u\<close> raise nothing, the failure is the assertion that
  untyped cases are not supported; when \<open>u\<close> is the first case, the class is left as it
  was.
\<close>

theorem untyped_case_aborts:
  assumes "get_class_vars ctx = Inr (pre @ u # post)" and "var_type u = None"
    and "tuple_type (info ctx) = None"
  shows "fst (transform_class ctx) \<noteq> None \<and>
    snd (transform_class ctx) = snd (add_case_methods ctx (fill_typevars (info ctx)) pre) \<and>
    (fst (add_case_methods ctx (fill_typevars (info ctx)) pre) = None \<longrightarrow>
       fst (transform_class ctx) = Some untyped_error) \<and>
    (pre = [] \<longrightarrow> transform_class ctx = (Some untyped_error, ctx))"
proof -
  let ?it = "fill_typevars (info ctx)"
  let ?l = "add_case_methods ctx ?it (pre @ u # post)"
  from assms(3) have inst: "is_Instance ?it" by (simp add: fill_typevars_def)
  note u = add_case_methods_untyped [OF assms(2), of ctx ?it pre post]
  from u(1) obtain e where e: "fst ?l = Some e" by auto
  have tc: "transform_cases ctx ?it (pre @ u # post) = ?l"
    using e by (cases ?l) (simp add: transform_cases_def)
  from inst assms(1) tc have t: "transform_class ctx = ?l"
    by (simp add: transform_class_def Let_def)
  have 4: "pre = [] \<longrightarrow> transform_class ctx = (Some untyped_error, ctx)"
    using t assms(2) by (simp add: untyped_error_def)
  from t u 4 show ?thesis by simp
qed

theorem untyped_case_aborts_witness:
  "get_class_vars partly_typed_class =
     Inr ([\<lparr>var_name = ''A'', var_type = Some int_type\<rparr>] @
          \<lparr>var_name = ''B'', var_type = None\<rparr> # []) \<and>
   var_type \<lparr>var_name = ''B'', var_type = None\<rparr> = None \<and>
   tuple_type (info partly_typed_class) = None \<and>
   fst (transform_class partly_typed_class) \<noteq> None \<and>
   snd (transform_class partly_typed_class) =
     snd (add_case_methods partly_typed_class (fill_typevars (info partly_typed_class))
            [\<lparr>var_name = ''A'', var_type = Some int_type\<rparr>])"
proof -
  have 1: "get_class_vars partly_typed_class =
     Inr ([\<lparr>var_name = ''A'', var_type = Some int_type\<rparr>] @
          \<lparr>var_name = ''B'', var_type = None\<rparr> # [])" by code_simp
  have 2: "var_type \<lparr>var_name = ''B'', var_type = None\<rparr> = None" by simp
  have 3: "tuple_type (info partly_typed_class) = None"
    by (simp add: partly_typed_class_def class_of_def)
  from untyped_case_aborts [OF 1 2 3] 1 2 3 show ?thesis by blast
qed

section \<open>Cases whose lower-cased names coincide\<close>

definition clash_class :: class_def_context where
  "clash_class = class_of ''Clash'' [(''A'', Some int_type), (''a'', Some str_type)]"

lemma two_in_filter:
  assumes "distinct xs" and "a \<in> set xs" and "b \<in> set xs" and "a \<noteq> b" and "P a" and "P b"
  shows "2 \<le> length (filter P xs)"
proof -
  from assms have "{a, b} \<subseteq> set (filter P xs)" by simp
  then have "card {a, b} \<le> card (set (filter P xs))" by (rule card_mono [rotated]) simp
  moreover from assms(4) have "card {a, b} = 2" by simp
  moreover have "card (set (filter P xs)) \<le> length (filter P xs)" by (rule card_length)
  ultimately show ?thesis by simp
qed

text \<open>
  Claim C6, as stated, fails: no step of the transformation compares the lower-cased
  names of the cases. For the class \<^verbatim>\<open>Clash\<close>, which declares \<^verbatim>\<open>A: int\<close> and
  \<^verbatim>\<open>a: str\<close>, the transformation completes, and \<^verbatim>\<open>match\<close> gets two parameters named
  \<^verbatim>\<open>a\<close>.
\<close>

theorem colliding_names_not_rejected:
  "lower ''A'' = lower ''a'' \<and>
   fst (transform_class clash_class) = None \<and>
   method_argument_names (snd (transform_class clash_class)) ''match'' =
     Some [''self'', ''a'', ''a'']"
proof (intro conjI)
  show "lower ''A'' = lower ''a''" by code_simp
  show "fst (transform_class clash_class) = None" by code_simp
  show "method_argument_names (snd (transform_class clash_class)) ''match'' =
     Some [''self'', ''a'', ''a'']" by code_simp
qed

text \<open>
  Claim C6, amended. The transformation does not check for cases whose lower-cased names
  coincide. When it completes for a class with two different cases of the same
  lower-cased name, the generated \<^verbatim>\<open>match\<close> has a parameter for each of them: at least
  two of its arguments carry that one name.
\<close>

theorem colliding_cases_both_in_match:
  assumes "transform_class ctx = (None, ctx')" and "get_class_vars ctx = Inr cases"
    and "c1 \<in> set cases" and "c2 \<in> set cases" and "c1 \<noteq> c2"
    and "lower (var_name c1) = lower (var_name c2)"
  shows "\<exists>f. map_of (names (info ctx')) ''match'' =
        Some \<lparr>sym_kind = MDEF, node = FuncDefNode f, plugin_generated = True\<rparr> \<and>
      2 \<le> length (filter (\<lambda>a. var_name (variable a) = lower (var_name c1) \<and> kind a = ARG_NAMED)
                     (arguments f))"
proof -
  let ?R = "match_result_type (info ctx)"
  let ?P = "\<lambda>c. lower (var_name c) = lower (var_name c1)"
  from assms(1) obtain cases' where "get_class_vars ctx = Inr cases'"
    and "transform_cases ctx (fill_typevars (info ctx)) cases' = (None, ctx')"
    by (rule transform_class_None)
  with assms(2) have t: "transform_cases ctx (fill_typevars (info ctx)) cases = (None, ctx')"
    by simp
  from transform_cases_match [OF t] obtain f where
    f: "map_of (names (info ctx')) ''match'' =
        Some \<lparr>sym_kind = MDEF, node = FuncDefNode f, plugin_generated = True\<rparr>"
      "arguments f = self_argument (info ctx) # matchArgs cases ?R"
    by blast
  have "2 \<le> length (filter ?P (first_occurrences cases))"
    using distinct_first_occurrences [of cases] assms(3,4,5,6)
    by (intro two_in_filter [of _ c1 c2]) (simp_all add: set_first_occurrences)
  also have "length (filter ?P (first_occurrences cases)) =
      length (filter (\<lambda>a. var_name (variable a) = lower (var_name c1) \<and> kind a = ARG_NAMED)
                (matchArgs cases ?R))"
    by (simp add: matchArgs_first_occurrences filter_map comp_def)
  also have "\<dots> \<le> length (filter (\<lambda>a. var_name (variable a) = lower (var_name c1) \<and>
      kind a = ARG_NAMED) (arguments f))"
    by (simp add: f(2))
  finally show ?thesis using f(1) by blast
qed

theorem colliding_cases_both_in_match_witness:
  "transform_class clash_class = (None, snd (transform_class clash_class)) \<and>
   get_class_vars clash_class =
     Inr [\<lparr>var_name = ''A'', var_type = Some int_type\<rparr>,
          \<lparr>var_name = ''a'', var_type = Some str_type\<rparr>] \<and>
   lower ''A'' = lower ''a'' \<and>
   (\<exists>f. map_of (names (info (snd (transform_class clash_class)))) ''match'' =
        Some \<lparr>sym_kind = MDEF, node = FuncDefNode f, plugin_generated = True\<rparr> \<and>
      2 \<le> length (filter (\<lambda>a. var_name (variable a) = lower ''A'' \<and> kind a = ARG_NAMED)
                     (arguments f)))"
proof -
  have s: "fst (transform_class clash_class) = None" by code_simp
  have 1: "transform_class clash_class = (None, snd (transform_class clash_class))"
    using s by (cases "transform_class clash_class") simp
  have 2: "get_class_vars clash_class =
     Inr [\<lparr>var_name = ''A'', var_type = Some int_type\<rparr>,
          \<lparr>var_name = ''a'', var_type = Some str_type\<rparr>]" by code_simp
  have 3: "lower ''A'' = lower ''a''" by code_simp
  have "\<exists>f. map_of (names (info (snd (transform_class clash_class)))) ''match'' =
        Some \<lparr>sym_kind = MDEF, node = FuncDefNode f, plugin_generated = True\<rparr> \<and>
      2 \<le> length (filter (\<lambda>a. var_name (variable a) =
          lower (var_name \<lparr>var_name = ''A'', var_type = Some int_type\<rparr>) \<and> kind a = ARG_NAMED)
                     (arguments f))"
    by (rule colliding_cases_both_in_match [OF 1 2,
          of "\<lparr>var_name = ''A'', var_type = Some int_type\<rparr>"
             "\<lparr>var_name = ''a'', var_type = Some str_type\<rparr>"])
      (simp_all add: 3)
  then have "\<exists>f. map_of (names (info (snd (transform_class clash_class)))) ''match'' =
        Some \<lparr>sym_kind = MDEF, node = FuncDefNode f, plugin_generated = True\<rparr> \<and>
      2 \<le> length (filter (\<lambda>a. var_name (variable a) = lower ''A'' \<and> kind a = ARG_NAMED)
                     (arguments f))"
    by simp
  with 1 2 3 show ?thesis by (intro conjI)
qed

section \<open>A name that the user has already defined\<close>

text \<open>
  Claim C5. Every generated method is installed by a call of \<^verbatim>\<open>_add_method\<close>. When the
  name \<open>name\<close> of the call already maps to a symbol \<open>s\<close> that is not plugin-generated (and
  the arguments passed are typed, as the call asserts), the call completes and
  \<^item> the symbol \<open>s\<close> is kept, unchanged, under the key \<open>r\<close> that
    \<^verbatim>\<open>get_unique_redefinition_name\<close> computes from \<open>name\<close> and the keys of the table;
  \<^item> \<open>r\<close> was not a key of the table before and differs from \<open>name\<close>, so nothing is
    overwritten by the renaming;
  \<^item> \<open>name\<close> maps to the plugin-generated method of that name;
  \<^item> every other key maps to what it mapped to before, and the class body only gains the
    generated definition: no statement of the user is removed.
\<close>

theorem add_method_keeps_user_symbol:
  assumes "map_of (names (info ctx)) name = Some s" and "\<not> plugin_generated s"
    and "list_all (\<lambda>a. type_annotation a \<noteq> None) args"
  shows "\<exists>ctx' f r. add_method ctx name args rt st tv ic = (None, ctx') \<and>
      r = get_unique_redefinition_name name (map fst (names (info ctx))) \<and>
      map_of (names (info ctx)) r = None \<and> r \<noteq> name \<and>
      map_of (names (info ctx')) r = Some s \<and>
      map_of (names (info ctx')) name =
        Some \<lparr>sym_kind = MDEF, node = FuncDefNode f, plugin_generated = True\<rparr> \<and>
      fd_name f = name \<and> is_class f = ic \<and>
      (\<forall>k. k \<noteq> name \<and> k \<noteq> r \<longrightarrow>
         map_of (names (info ctx')) k = map_of (names (info ctx)) k) \<and>
      body ctx' = body ctx @ [FuncDefStmt f]"
proof -
  let ?r = "get_unique_redefinition_name name (map fst (names (info ctx)))"
  from assms(1,2) have ns: "\<not> stale ctx name" by (simp add: stale_def)
  note rg = remove_generated_not_stale [OF ns]
  have "fst (add_method ctx name args rt st tv ic) = None"
    using rg assms(3) by (rule add_method_no_error)
  then obtain ctx' where a: "add_method ctx name args rt st tv ic = (None, ctx')"
    by (cases "add_method ctx name args rt st tv ic") simp
  from a obtain ctx1 f where
    h: "remove_generated ctx name = Inr ctx1" "fd_name f = name" "is_class f = ic"
      "map_of (names (info ctx')) = names_after_install (info ctx) name f"
      "body ctx' = body ctx1 @ [FuncDefStmt f]"
    by (rule add_method_NoneE)
  from h(1) rg have c1: "ctx1 = ctx" by simp
  have fresh: "map_of (names (info ctx)) ?r = None" by (rule fresh_key_map_of)
  with assms(1) have ne: "?r \<noteq> name" by auto
  have m: "map_of (names (info ctx')) =
      ((map_of (names (info ctx)))(?r \<mapsto> s))
        (name \<mapsto> \<lparr>sym_kind = MDEF, node = FuncDefNode f, plugin_generated = True\<rparr>)"
    using h(4) assms(1) by (simp add: names_after_install_def)
  have 1: "map_of (names (info ctx')) ?r = Some s" using m ne by simp
  have 2: "map_of (names (info ctx')) name =
      Some \<lparr>sym_kind = MDEF, node = FuncDefNode f, plugin_generated = True\<rparr>"
    using m by simp
  have 3: "\<forall>k. k \<noteq> name \<and> k \<noteq> ?r \<longrightarrow>
      map_of (names (info ctx')) k = map_of (names (info ctx)) k"
    using m by simp
  have 4: "body ctx' = body ctx @ [FuncDefStmt f]" using h(5) c1 by simp
  show ?thesis
    apply (rule exI [of _ ctx'], rule exI [of _ f], rule exI [of _ ?r])
    using a fresh ne 1 2 h(2,3) 3 4
    by (intro conjI refl) assumption+
qed

theorem add_method_keeps_user_symbol_witness:
  "map_of (names (info other_class)) ''A'' = Some (snd (declared (''A'', Some int_type))) \<and>
   \<not> plugin_generated (snd (declared (''A'', Some int_type))) \<and>
   list_all (\<lambda>a. type_annotation a \<noteq> None) [] \<and>
   get_unique_redefinition_name ''A'' (map fst (names (info other_class))) = ''A-redefinition'' \<and>
   (\<exists>ctx' f. add_method other_class ''A'' [] int_type None None True = (None, ctx') \<and>
      map_of (names (info ctx')) ''A-redefinition'' = Some (snd (declared (''A'', Some int_type))) \<and>
      map_of (names (info ctx')) ''A'' =
        Some \<lparr>sym_kind = MDEF, node = FuncDefNode f, plugin_generated = True\<rparr>)"
proof -
  have 1: "map_of (names (info other_class)) ''A'' = Some (snd (declared (''A'', Some int_type)))"
    by (simp add: other_class_def class_of_def declared_def)
  have 2: "\<not> plugin_generated (snd (declared (''A'', Some int_type)))"
    by (simp add: declared_def)
  have 3: "list_all (\<lambda>a. type_annotation a \<noteq> None) []" by simp
  have 4: "get_unique_redefinition_name ''A'' (map fst (names (info other_class))) =
      ''A-redefinition''" by code_simp
  have "\<exists>ctx' f. add_method other_class ''A'' [] int_type None None True = (None, ctx') \<and>
      map_of (names (info ctx')) ''A-redefinition'' = Some (snd (declared (''A'', Some int_type))) \<and>
      map_of (names (info ctx')) ''A'' =
        Some \<lparr>sym_kind = MDEF, node = FuncDefNode f, plugin_generated = True\<rparr>"
    using add_method_keeps_user_symbol [OF 1 2 3, of int_type None None True]
    apply (elim exE conjE)
    apply (rule_tac x = ctx' in exI, rule_tac x = f in exI)
    apply (simp only: 4)
    done
  with 1 2 3 4 show ?thesis by (intro conjI)
qed

section \<open>A class without cases\<close>

lemma remove_generated_after_typevar:
  assumes "add_typevar ctx n = (ctx2, R)" and "n \<noteq> k"
    and "remove_generated ctx k \<noteq> Inl ValueError"
  shows "\<exists>c. remove_generated ctx2 k = Inr c"
proof -
  from assms(1) have b: "body ctx2 = body ctx"
    and m: "map_of (names (info ctx2)) = (map_of (names (info ctx)))(n \<mapsto>
        \<lparr>sym_kind = MDEF,
         node = TypeVarExprNode \<lparr>tve_name = n, tve_fullname = fullname (info ctx) @ ''.'' @ n,
           tve_values = [], tve_upper_bound = named_type ''__builtins__.object''\<rparr>,
         plugin_generated = False\<rparr>)"
    by (auto simp: add_typevar_def Let_def update_conv')
  from m assms(2) have "map_of (names (info ctx2)) k = map_of (names (info ctx)) k" by simp
  with b assms(3) show ?thesis
    by (auto simp: remove_generated_def split: option.splits symbol_node.splits if_splits)
qed

lemma matchArgs_Nil: "matchArgs [] R = []"
  by (simp add: matchArgs_first_occurrences)

lemma transform_cases_Nil:
  assumes "remove_generated ctx ''match'' \<noteq> Inl ValueError"
  obtains ctx2 ctx' where
    "add_typevar ctx ''_MatchResult'' = (ctx2, match_result_type (info ctx))"
    "add_method ctx2 ''match'' [] (TypeVarType (match_result_type (info ctx))) None
       (Some (match_result_type (info ctx))) False = (None, ctx')"
    "transform_cases ctx it [] = (None, ctx')"
proof -
  let ?R = "match_result_type (info ctx)"
  obtain ctx2 R where tv0: "add_typevar ctx ''_MatchResult'' = (ctx2, R)"
    by (cases "add_typevar ctx ''_MatchResult''") simp
  from add_typevar_facts(1) [OF tv0] have R: "R = ?R" .
  have tv: "add_typevar ctx ''_MatchResult'' = (ctx2, ?R)" unfolding R [symmetric] by (rule tv0)
  have ne: "''_MatchResult'' \<noteq> ''match''" by simp
  from remove_generated_after_typevar [OF tv ne assms] obtain c where
    rg: "remove_generated ctx2 ''match'' = Inr c" ..
  have ty: "list_all (\<lambda>a. type_annotation a \<noteq> None) ([] :: argument list)" by simp
  have "fst (add_method ctx2 ''match'' [] (TypeVarType ?R) None (Some ?R) False) = None"
    using rg ty by (rule add_method_no_error)
  then obtain ctx' where
    m: "add_method ctx2 ''match'' [] (TypeVarType ?R) None (Some ?R) False = (None, ctx')"
    by (cases "add_method ctx2 ''match'' [] (TypeVarType ?R) None (Some ?R) False") simp
  have tc: "transform_cases ctx it [] = (None, ctx')"
    unfolding transform_cases_def by (simp add: tv matchArgs_Nil m)
  from tv m tc show thesis by (rule that)
qed

text \<open>
  Two classes that declare no case: \<^verbatim>\<open>Unit\<close>, and \<^verbatim>\<open>Pair\<close>, which derives from
  \<^verbatim>\<open>Tuple[int, str]\<close>, so that \<^verbatim>\<open>fill_typevars\<close> gives a \<^verbatim>\<open>TupleType\<close> for it.
\<close>

definition unit_class :: class_def_context where
  "unit_class = class_of ''Unit'' []"

definition pair_class :: class_def_context where
  "pair_class =
     (class_of ''Pair'' [])\<lparr>info := (info (class_of ''Pair'' []))
        \<lparr>tuple_type := Some [int_type, str_type]\<rparr>\<rparr>"

text \<open>
  Claim C10, counterexample. The class \<^verbatim>\<open>Pair\<close> declares no case, and the transformation
  raises at the assertion that the instance type is an \<^verbatim>\<open>Instance\<close>: the context is
  returned as it was, with neither \<^verbatim>\<open>_MatchResult\<close> nor \<^verbatim>\<open>match\<close> in the symbol table.
\<close>

theorem no_cases_tuple_class_unchanged:
  "get_class_vars pair_class = Inr [] \<and>
   transform_class pair_class = (Some (AssertionError []), pair_class) \<and>
   map_of (names (info (snd (transform_class pair_class)))) ''_MatchResult'' = None \<and>
   map_of (names (info (snd (transform_class pair_class)))) ''match'' = None"
proof -
  have 1: "get_class_vars pair_class = Inr []"
    by (simp add: pair_class_def class_of_def get_class_vars_def)
  have 2: "transform_class pair_class = (Some (AssertionError []), pair_class)"
    by (simp add: transform_class_def Let_def fill_typevars_def pair_class_def class_of_def)
  have 3: "names (info pair_class) = []" by (simp add: pair_class_def class_of_def)
  from 1 2 3 show ?thesis by simp
qed

text \<open>
  Claim C10, amended. For a class that declares no case, where the class has no tuple type
  and a \<^verbatim>\<open>match\<close> generated by an earlier pass, if the symbol table has one, is still in
  the class body, the transformation completes and changes the symbol table:
  \<^verbatim>\<open>_MatchResult\<close> maps to the type variable expression, and \<^verbatim>\<open>match\<close> maps to a
  generated instance method whose only argument is \<^verbatim>\<open>self\<close> and whose return type is the
  type variable.
\<close>

theorem transform_class_no_cases:
  assumes "get_class_vars ctx = Inr []" and "tuple_type (info ctx) = None"
    and "remove_generated ctx ''match'' \<noteq> Inl ValueError"
  shows "\<exists>ctx' f R. transform_class ctx = (None, ctx') \<and>
      R = TypeVarDef ''_MatchResult'' (fullname (info ctx) @ ''._MatchResult'') (- 1) []
            (named_type ''__builtins__.object'') \<and>
      map_of (names (info ctx')) ''_MatchResult'' =
        Some \<lparr>sym_kind = MDEF,
              node = TypeVarExprNode \<lparr>tve_name = ''_MatchResult'',
                tve_fullname = fullname (info ctx) @ ''._MatchResult'', tve_values = [],
                tve_upper_bound = named_type ''__builtins__.object''\<rparr>,
              plugin_generated = False\<rparr> \<and>
      map_of (names (info ctx')) ''match'' =
        Some \<lparr>sym_kind = MDEF, node = FuncDefNode f, plugin_generated = True\<rparr> \<and>
      fd_name f = ''match'' \<and> \<not> is_class f \<and>
      arguments f =
        [\<lparr>variable = \<lparr>var_name = ''self'', var_type = None\<rparr>,
          type_annotation = Some (fill_typevars (info ctx)), initializer = None,
          kind = ARG_POS\<rparr>] \<and>
      fd_type f = Some (set_callable_name
        (CallableType [fill_typevars (info ctx)] [ARG_POS] [Some ''self''] (TypeVarType R)
           (named_type ''__builtins__.function'') [R] None) ''match'' (info ctx)) \<and>
      names (info ctx') \<noteq> names (info ctx)"
proof -
  let ?R = "match_result_type (info ctx)"
  let ?it = "fill_typevars (info ctx)"
  let ?fo = "first_occurrences ([] :: var list)"
  let ?tve = "\<lparr>sym_kind = MDEF,
              node = TypeVarExprNode \<lparr>tve_name = ''_MatchResult'',
                tve_fullname = fullname (info ctx) @ ''._MatchResult'', tve_values = [],
                tve_upper_bound = named_type ''__builtins__.object''\<rparr>,
              plugin_generated = False\<rparr>"
  from assms(2) have inst: "is_Instance ?it" by (simp add: fill_typevars_def)
  from assms(3) obtain ctx2 ctx' where
    tv: "add_typevar ctx ''_MatchResult'' = (ctx2, ?R)"
    and m: "add_method ctx2 ''match'' [] (TypeVarType ?R) None (Some ?R) False = (None, ctx')"
    and tc: "transform_cases ctx ?it [] = (None, ctx')"
    by (rule transform_cases_Nil)
  have t: "transform_class ctx = (None, ctx')"
    unfolding transform_class_def by (simp add: Let_def inst assms(1) tc)
  note n2 = add_typevar_facts(4) [OF tv]
  have mr2: "map_of (names (info ctx2)) ''_MatchResult'' = Some ?tve"
    unfolding n2 by simp
  have ne: "''_MatchResult'' \<noteq> ''match''" by simp
  have 1: "map_of (names (info ctx')) ''_MatchResult'' = Some ?tve"
    using m mr2 ne by (rule add_method_preserves)
  have same2: "map_of (names (info ctx2)) k = map_of (names (info ctx)) k"
    if "k \<noteq> ''_MatchResult''" for k
    unfolding n2 using that by simp
  from transform_cases_match [OF tc] obtain f where
    f: "map_of (names (info ctx')) ''match'' =
          Some \<lparr>sym_kind = MDEF, node = FuncDefNode f, plugin_generated = True\<rparr> \<and>
        fd_name f = ''match'' \<and> \<not> is_class f \<and>
        arguments f = self_argument (info ctx) # matchArgs [] ?R \<and>
        fd_type f = Some (set_callable_name
          (CallableType (?it # map (\<lambda>c. callable_type_for_adt_case c ?R) ?fo)
             (ARG_POS # map (\<lambda>c. ARG_NAMED) ?fo)
             (Some ''self'' # map (\<lambda>c. Some (lower (var_name c))) ?fo)
             (TypeVarType ?R) (named_type ''__builtins__.function'') [?R] None)
          ''match'' (info ctx))" ..
  from f have f1: "map_of (names (info ctx')) ''match'' =
          Some \<lparr>sym_kind = MDEF, node = FuncDefNode f, plugin_generated = True\<rparr>" ..
  from f have f2: "fd_name f = ''match''" by (elim conjE)
  from f have f3: "\<not> is_class f" by (elim conjE)
  from f have f4: "arguments f = self_argument (info ctx) # matchArgs [] ?R" by (elim conjE)
  from f have f5: "fd_type f = Some (set_callable_name
          (CallableType (?it # map (\<lambda>c. callable_type_for_adt_case c ?R) ?fo)
             (ARG_POS # map (\<lambda>c. ARG_NAMED) ?fo)
             (Some ''self'' # map (\<lambda>c. Some (lower (var_name c))) ?fo)
             (TypeVarType ?R) (named_type ''__builtins__.function'') [?R] None)
          ''match'' (info ctx))" by (elim conjE)
  from m obtain g where
    g: "map_of (names (info ctx')) = names_after_install (info ctx2) ''match'' g"
    by (rule add_method_NoneE)
  have changed: "names (info ctx') \<noteq> names (info ctx)"
  proof (cases "map_of (names (info ctx)) ''match''")
    case None
    show ?thesis
    proof
      assume "names (info ctx') = names (info ctx)"
      with f1 None show False by simp
    qed
  next
    case (Some old)
    let ?r = "get_unique_redefinition_name ''match'' (map fst (names (info ctx2)))"
    from Some same2 [of "''match''"] have o2: "map_of (names (info ctx2)) ''match'' = Some old"
      by simp
    have fresh: "map_of (names (info ctx2)) ?r = None" by (rule fresh_key_map_of)
    with o2 have rm: "?r \<noteq> ''match''" by auto
    from fresh mr2 have rt: "?r \<noteq> ''_MatchResult''" by auto
    from g o2 rm have new: "map_of (names (info ctx')) ?r = Some old"
      by (simp add: names_after_install_def)
    from fresh same2 [OF rt] have old: "map_of (names (info ctx)) ?r = None" by simp
    show ?thesis
    proof
      assume "names (info ctx') = names (info ctx)"
      with new old show False by simp
    qed
  qed
  have R': "?R = TypeVarDef ''_MatchResult'' (fullname (info ctx) @ ''._MatchResult'') (- 1) []
            (named_type ''__builtins__.object'')"
    by (simp add: match_result_type_def)
  have a: "arguments f =
        [\<lparr>variable = \<lparr>var_name = ''self'', var_type = None\<rparr>,
          type_annotation = Some ?it, initializer = None, kind = ARG_POS\<rparr>]"
    unfolding f4 by (simp add: self_argument_def matchArgs_Nil)
  have ty: "fd_type f = Some (set_callable_name
        (CallableType [?it] [ARG_POS] [Some ''self''] (TypeVarType ?R)
           (named_type ''__builtins__.function'') [?R] None) ''match'' (info ctx))"
    unfolding f5 by simp
  show ?thesis
    apply (rule exI [of _ ctx'], rule exI [of _ f], rule exI [of _ ?R])
    using t R' 1 f1 f2 f3 a ty changed
    apply (intro conjI)
    apply assumption+
    done
qed

theorem transform_class_no_cases_witness:
  "get_class_vars unit_class = Inr [] \<and> tuple_type (info unit_class) = None \<and>
   remove_generated unit_class ''match'' \<noteq> Inl ValueError \<and>
   names (info unit_class) = [] \<and>
   (\<exists>ctx' f. transform_class unit_class = (None, ctx') \<and>
      map_of (names (info ctx')) ''_MatchResult'' =
        Some \<lparr>sym_kind = MDEF,
              node = TypeVarExprNode \<lparr>tve_name = ''_MatchResult'',
                tve_fullname = ''shapes.Unit._MatchResult'', tve_values = [],
                tve_upper_bound = named_type ''__builtins__.object''\<rparr>,
              plugin_generated = False\<rparr> \<and>
      map_of (names (info ctx')) ''match'' =
        Some \<lparr>sym_kind = MDEF, node = FuncDefNode f, plugin_generated = True\<rparr> \<and>
      map (\<lambda>a. var_name (variable a)) (arguments f) = [''self''] \<and>
      names (info ctx') \<noteq> [])"
proof -
  have 1: "get_class_vars unit_class = Inr []"
    by (simp add: unit_class_def class_of_def get_class_vars_def)
  have 2: "tuple_type (info unit_class) = None" by (simp add: unit_class_def class_of_def)
  have 3: "remove_generated unit_class ''match'' \<noteq> Inl ValueError"
    by (simp add: unit_class_def class_of_def remove_generated_def)
  have 4: "names (info unit_class) = []" by (simp add: unit_class_def class_of_def)
  have 5: "fullname (info unit_class) = ''shapes.Unit''"
    by (simp add: unit_class_def class_of_def)
  have "\<exists>ctx' f. transform_class unit_class = (None, ctx') \<and>
      map_of (names (info ctx')) ''_MatchResult'' =
        Some \<lparr>sym_kind = MDEF,
              node = TypeVarExprNode \<lparr>tve_name = ''_MatchResult'',
                tve_fullname = ''shapes.Unit._MatchResult'', tve_values = [],
                tve_upper_bound = named_type ''__builtins__.object''\<rparr>,
              plugin_generated = False\<rparr> \<and>
      map_of (names (info ctx')) ''match'' =
        Some \<lparr>sym_kind = MDEF, node = FuncDefNode f, plugin_generated = True\<rparr> \<and>
      map (\<lambda>a. var_name (variable a)) (arguments f) = [''self''] \<and>
      names (info ctx') \<noteq> []"
    using transform_class_no_cases [OF 1 2 3]
    apply (elim exE conjE)
    apply (rule_tac x = ctx' in exI, rule_tac x = f in exI)
    apply (simp only: 4 5)
    apply simp
    done
  with 1 2 3 4 show ?thesis by (intro conjI)
qed

section \<open>Constructors and accessors of the cases\<close>

lemma method_names_member:
  "c \<in> set cases \<Longrightarrow>
   var_name c \<in> set (method_names cases) \<and> lower (var_name c) \<in> set (method_names cases)"
  by (induction cases) auto

text \<open>
  \<open>body_methods\<close> lists the function definitions of a class body in order: the name of
  each, and whether it is a class method. \<open>small_class\<close> is a class that declares the one
  case \<^verbatim>\<open>a: int\<close>, whose name is in lower case already, and \<open>small_pass\<close> is that class
  after the transformation.
\<close>

fun body_methods :: "statement list \<Rightarrow> (string \<times> bool) list" where
  "body_methods [] = []"
| "body_methods (FuncDefStmt f # stmts) = (fd_name f, is_class f) # body_methods stmts"
| "body_methods (stmt # stmts) = body_methods stmts"

definition small_class :: class_def_context where
  "small_class = class_of ''Small'' [(''a'', Some int_type)]"

definition small_pass :: class_def_context where
  "small_pass = snd (transform_class small_class)"

text \<open>
  Claim C3, counterexample. The class \<^verbatim>\<open>Small\<close> declares the typed case \<^verbatim>\<open>a: int\<close>. The
  transformation completes, and the class is left without a constructor: the accessor has
  the constructor's name, so installing it takes the constructor's definition out of the
  class body and puts the accessor under \<^verbatim>\<open>a\<close>. The body holds the instance methods
  \<^verbatim>\<open>a\<close> and \<^verbatim>\<open>match\<close> and no class method.
\<close>

theorem lower_case_name_loses_constructor:
  "get_class_vars small_class = Inr [\<lparr>var_name = ''a'', var_type = Some int_type\<rparr>] \<and>
   fst (transform_class small_class) = None \<and>
   \<not> is_constructor (info small_class) \<lparr>var_name = ''a'', var_type = Some int_type\<rparr> int_type
       (map_of (names (info small_pass)) ''a'') \<and>
   is_accessor (info small_class) \<lparr>var_name = ''a'', var_type = Some int_type\<rparr> int_type
       (map_of (names (info small_pass)) ''a'') \<and>
   body_methods (body small_pass) = [(''a'', False), (''match'', False)]"
proof (intro conjI)
  show "get_class_vars small_class = Inr [\<lparr>var_name = ''a'', var_type = Some int_type\<rparr>]"
    by code_simp
  show "fst (transform_class small_class) = None" by code_simp
  show "\<not> is_constructor (info small_class) \<lparr>var_name = ''a'', var_type = Some int_type\<rparr>
      int_type (map_of (names (info small_pass)) ''a'')" by code_simp
  show "is_accessor (info small_class) \<lparr>var_name = ''a'', var_type = Some int_type\<rparr> int_type
      (map_of (names (info small_pass)) ''a'')" by code_simp
  show "body_methods (body small_pass) = [(''a'', False), (''match'', False)]" by code_simp
qed

text \<open>
  Claim C3, amended. Let the class have no tuple type, let \<open>cases\<close> be the cases that
  \<^verbatim>\<open>_get_class_vars\<close> finds, all of them typed, let the names the transformation generates
  (for each case its name and its name in lower case, then \<^verbatim>\<open>_MatchResult\<close> and
  \<^verbatim>\<open>match\<close>) be distinct, and let none of the method names be that of a method generated
  by an earlier pass. Then the transformation completes; the class body gains, after the
  statements it had, one function definition per generated method, in the order of the
  cases: for each case the constructor, then the accessor, and \<^verbatim>\<open>match\<close> last; and for
  every case the symbol table maps the case's name to the generated class method that
  takes the case's value and returns the class's type, and the name in lower case to the
  generated instance method that takes \<^verbatim>\<open>self\<close> only and returns the case's type.
\<close>

theorem transform_class_installs_cases:
  assumes "tuple_type (info ctx) = None" and "get_class_vars ctx = Inr cases"
    and "list_all (\<lambda>c. var_type c \<noteq> None) cases"
    and "distinct (method_names cases @ [''_MatchResult'', ''match''])"
    and "list_all (\<lambda>k. \<not> stale ctx k) (method_names cases @ [''match''])"
  shows "\<exists>ctx' fs. transform_class ctx = (None, ctx') \<and>
      body ctx' = body ctx @ map FuncDefStmt fs \<and>
      map fd_name fs = method_names cases @ [''match''] \<and>
      (\<forall>c \<in> set cases. \<exists>t. var_type c = Some t \<and>
         is_constructor (info ctx) c t (map_of (names (info ctx')) (var_name c)) \<and>
         is_accessor (info ctx) c t (map_of (names (info ctx')) (lower (var_name c))))"
proof -
  let ?it = "fill_typevars (info ctx)"
  from assms(1) have inst: "is_Instance ?it" by (simp add: fill_typevars_def)
  from assms(4) have d: "distinct (method_names cases)"
    "''_MatchResult'' \<notin> set (method_names cases)" "''match'' \<notin> set (method_names cases)"
    by auto
  from assms(5) have s: "list_all (\<lambda>k. \<not> stale ctx k) (method_names cases)"
    "\<not> stale ctx ''match''" by simp_all
  from add_case_methods_first_pass [OF assms(3) d(1) s(1), of ?it] obtain ctx1 fs where
    l: "add_case_methods ctx ?it cases = (None, ctx1)"
    and b1: "body ctx1 = body ctx @ map FuncDefStmt fs"
    and n1: "map fd_name fs = method_names cases"
    and k1: "\<And>k. k \<notin> set (method_names cases) \<Longrightarrow> \<not> stale ctx k \<Longrightarrow> \<not> stale ctx1 k"
    by blast
  obtain ctx2 R where tv: "add_typevar ctx1 ''_MatchResult'' = (ctx2, R)"
    by (cases "add_typevar ctx1 ''_MatchResult''") simp
  note b2 = add_typevar_facts(3) [OF tv] and n2 = add_typevar_facts(4) [OF tv]
  from k1 [OF d(3) s(2)] have "\<not> stale ctx1 ''match''" .
  with tv have s2: "\<not> stale ctx2 ''match''" by (rule add_typevar_not_stale)
  from add_method_first_pass [OF s2 matchArgs_typed, of cases R "TypeVarType R" None "Some R" False]
  obtain ctx' f where
    m: "add_method ctx2 ''match'' (matchArgs cases R) (TypeVarType R) None (Some R) False
          = (None, ctx')"
    and b3: "body ctx' = body ctx2 @ [FuncDefStmt f]" and n3: "fd_name f = ''match''"
    by blast
  have tc: "transform_cases ctx ?it cases = (None, ctx')"
    unfolding transform_cases_def by (simp add: l tv m)
  have t: "transform_class ctx = (None, ctx')"
    unfolding transform_class_def by (simp add: Let_def inst assms(2) tc)
  have b: "body ctx' = body ctx @ map FuncDefStmt (fs @ [f])"
    using b1 b2 b3 by simp
  have n: "map fd_name (fs @ [f]) = method_names cases @ [''match'']"
    using n1 n3 by simp
  have keep: "map_of (names (info ctx')) k = Some v"
    if "map_of (names (info ctx1)) k = Some v" "k \<in> set (method_names cases)" for k v
  proof -
    from that(2) d(2,3) have ne: "k \<noteq> ''_MatchResult''" "k \<noteq> ''match''" by auto
    from that(1) ne(1) have "map_of (names (info ctx2)) k = Some v" unfolding n2 by simp
    with m show ?thesis using ne(2) by (rule add_method_preserves)
  qed
  have each: "\<exists>t. var_type c = Some t \<and>
         is_constructor (info ctx) c t (map_of (names (info ctx')) (var_name c)) \<and>
         is_accessor (info ctx) c t (map_of (names (info ctx')) (lower (var_name c)))"
    if c: "c \<in> set cases" for c
  proof -
    from add_case_methods_installs [OF l refl d(1) c] obtain t where
      h: "var_type c = Some t"
        "is_constructor (info ctx) c t (map_of (names (info ctx1)) (var_name c))"
        "is_accessor (info ctx) c t (map_of (names (info ctx1)) (lower (var_name c)))"
      by blast
    from method_names_member [OF c] have mem: "var_name c \<in> set (method_names cases)"
      "lower (var_name c) \<in> set (method_names cases)" by simp_all
    from is_constructor_Some [OF h(2)] obtain v where
      v: "map_of (names (info ctx1)) (var_name c) = Some v" ..
    from is_accessor_Some [OF h(3)] obtain w where
      w: "map_of (names (info ctx1)) (lower (var_name c)) = Some w" ..
    from keep [OF v mem(1)] v h(2)
    have 1: "is_constructor (info ctx) c t (map_of (names (info ctx')) (var_name c))" by simp
    from keep [OF w mem(2)] w h(3)
    have 2: "is_accessor (info ctx) c t (map_of (names (info ctx')) (lower (var_name c)))"
      by simp
    from h(1) 1 2 show ?thesis by simp
  qed
  then have all: "\<forall>c \<in> set cases. \<exists>t. var_type c = Some t \<and>
         is_constructor (info ctx) c t (map_of (names (info ctx')) (var_name c)) \<and>
         is_accessor (info ctx) c t (map_of (names (info ctx')) (lower (var_name c)))" ..
  show ?thesis
    apply (rule exI [of _ ctx'], rule exI [of _ "fs @ [f]"])
    using t b n all
    apply (intro conjI)
    apply assumption+
    done
qed

theorem transform_class_installs_cases_witness:
  "tuple_type (info shape_class) = None \<and> get_class_vars shape_class = Inr shape_cases \<and>
   list_all (\<lambda>c. var_type c \<noteq> None) shape_cases \<and>
   distinct (method_names shape_cases @ [''_MatchResult'', ''match'']) \<and>
   list_all (\<lambda>k. \<not> stale shape_class k) (method_names shape_cases @ [''match'']) \<and>
   (\<exists>ctx' fs. transform_class shape_class = (None, ctx') \<and>
      body ctx' = body shape_class @ map FuncDefStmt fs \<and>
      map fd_name fs = [''A'', ''a'', ''B'', ''b'', ''match''] \<and>
      is_constructor (info shape_class) \<lparr>var_name = ''A'', var_type = Some int_type\<rparr> int_type
        (map_of (names (info ctx')) ''A'') \<and>
      is_accessor (info shape_class) \<lparr>var_name = ''A'', var_type = Some int_type\<rparr> int_type
        (map_of (names (info ctx')) ''a''))"
proof -
  have 1: "tuple_type (info shape_class) = None" by (simp add: shape_class_def class_of_def)
  have 2: "get_class_vars shape_class = Inr shape_cases" by (rule shape_class_vars)
  have 3: "list_all (\<lambda>c. var_type c \<noteq> None) shape_cases" by (simp add: shape_cases_def)
  have 4: "distinct (method_names shape_cases @ [''_MatchResult'', ''match''])" by code_simp
  have 5: "list_all (\<lambda>k. \<not> stale shape_class k) (method_names shape_cases @ [''match''])"
    by code_simp
  have lo: "lower ''A'' = ''a''" by code_simp
  have mn: "method_names shape_cases = [''A'', ''a'', ''B'', ''b'']" by code_simp
  have A: "\<lparr>var_name = ''A'', var_type = Some int_type\<rparr> \<in> set shape_cases"
    by (simp add: shape_cases_def)
  have "\<exists>ctx' fs. transform_class shape_class = (None, ctx') \<and>
      body ctx' = body shape_class @ map FuncDefStmt fs \<and>
      map fd_name fs = [''A'', ''a'', ''B'', ''b'', ''match''] \<and>
      is_constructor (info shape_class) \<lparr>var_name = ''A'', var_type = Some int_type\<rparr> int_type
        (map_of (names (info ctx')) ''A'') \<and>
      is_accessor (info shape_class) \<lparr>var_name = ''A'', var_type = Some int_type\<rparr> int_type
        (map_of (names (info ctx')) ''a'')"
    using transform_class_installs_cases [OF 1 2 3 4 5]
    apply (elim exE conjE)
    apply (drule bspec [OF _ A])
    apply (rule_tac x = ctx' in exI, rule_tac x = fs in exI)
    apply (simp add: mn lo)
    done
  with 1 2 3 4 5 show ?thesis by (intro conjI)
qed

end
